theory Spec2Isabelle
  imports Main "HOL-Library.Char_ord" "HOL-Library.List_Lexorder" "HOL-Library.Sublist"
    "HOL-Library.Multiset"
begin

section \<open>The document-control register of \<^verbatim>\<open>database.py\<close>\<close>

text \<open>
  \<^verbatim>\<open>database.py\<close> keeps organizations, users, projects, documents, document
  revisions, events, transmittals and transmittal links in SQLite tables and changes them
  with plain SQL statements issued through Python's \<^verbatim>\<open>sqlite3\<close> module. The
  embedding below follows that layering:
  \<^item> a table is the list of its rows in rowid order (the order of insertion), a row is a
    record with one field per column read by the modelled operations;
  \<^item> every SQL statement of the modelled functions is one HOL function on the store;
  \<^item> a Python exception is a value \<open>Inl e\<close> of \<open>error + 'a\<close>;
  \<^item> a public function opens a connection with \<^verbatim>\<open>get_conn\<close>, runs its
    statements in the transaction that \<^verbatim>\<open>sqlite3\<close> opens implicitly before
    the first INSERT, and calls \<^verbatim>\<open>conn.commit()\<close> last. An exception leaves the
    function before the commit, so the store keeps the state it had before the call.
  \<^item> \<^verbatim>\<open>datetime.utcnow().isoformat()\<close> is an input \<open>now\<close> of every operation.

  Outside the model: failures of the engine for lack of resources (a full disk, a locked
  file, the 64-bit rowid range), and SQLite's column type affinity; arguments have the
  types of the Python annotations.
\<close>

subsection \<open>Rows and the store\<close>

record organization =
  o_id :: int
  o_name :: string

record user =
  u_id :: int
  u_name :: "string option"
  u_org_id :: "int option"

record project =
  p_id :: int
  p_name :: string
  p_org_id :: int

record document =
  d_id :: int
  d_doc_number :: string
  d_title :: string
  d_doc_type :: "string option"
  d_status :: "string option"
  d_org_id :: int
  d_project_id :: int
  d_current_revision_id :: "int option"
  d_created_at :: string

record document_revision =
  r_id :: int
  r_document_id :: int
  r_revision :: string
  r_file_path :: string
  r_uploaded_by :: int
  r_uploaded_at :: string

record event =
  e_id :: int
  e_document_id :: int
  e_revision_id :: "int option"
  e_user_id :: int
  e_event_type :: string
  e_timestamp :: string
  e_notes :: "string option"

record transmittal =
  t_id :: int
  t_transmittal_number :: string
  t_description :: "string option"
  t_sender_org_id :: int
  t_recipient_org_id :: int
  t_created_by :: int
  t_created_at :: string

record transmittal_document =
  l_transmittal_id :: int
  l_revision_id :: int

text \<open>
  The store: one list per table, and for each AUTOINCREMENT table its entry of
  \<^verbatim>\<open>sqlite_sequence\<close>: the largest rowid the engine has recorded for the table, 0
  while it has recorded none, never negative. The sequence table is an ordinary table, so
  a rollback restores it with the rest.
\<close>

record database =
  organizations :: "organization list"
  users :: "user list"
  projects :: "project list"
  documents :: "document list"
  document_revisions :: "document_revision list"
  events :: "event list"
  transmittals :: "transmittal list"
  transmittal_documents :: "transmittal_document list"
  seq_documents :: nat
  seq_document_revisions :: nat
  seq_events :: nat
  seq_transmittals :: nat

text \<open>
  The exceptions the modelled statements raise: \<^verbatim>\<open>sqlite3.IntegrityError\<close> for a
  violated constraint, and \<^verbatim>\<open>TypeError\<close> where the code subscripts or unpacks the
  \<^verbatim>\<open>None\<close> that \<^verbatim>\<open>fetchone()\<close> returns for an empty result.
\<close>

datatype error = IntegrityError | TypeError

subsection \<open>Connections\<close>

text \<open>
  SQLite enforces FOREIGN KEY clauses only on a connection that has executed
  \<^verbatim>\<open>PRAGMA foreign_keys = ON\<close>; the setting is per connection and off by default.
  \<^verbatim>\<open>init_db\<close> executes the pragma on its own connection, which it closes;
  \<^verbatim>\<open>get_conn\<close> calls \<^verbatim>\<open>sqlite3.connect\<close> and sets the row factory only.
\<close>

record connection =
  foreign_keys :: bool

definition connect :: connection where
  "connect = \<lparr>foreign_keys = False\<rparr>"

definition pragma_foreign_keys_on :: "connection \<Rightarrow> connection" where
  "pragma_foreign_keys_on c = c\<lparr>foreign_keys := True\<rparr>"

definition get_conn :: connection where
  "get_conn = connect"

subsection \<open>Rowids and formatting\<close>

text \<open>
  An INTEGER PRIMARY KEY AUTOINCREMENT column receives one more than the largest of the
  table's rowids and the table's entry in \<^verbatim>\<open>sqlite_sequence\<close>.
\<close>

definition new_rowid :: "nat \<Rightarrow> int list \<Rightarrow> int" where
  "new_rowid seq ids = fold max ids (int seq) + 1"

text \<open>Python's \<^verbatim>\<open>str\<close> of an integer, as the f-string of the event note formats it.\<close>

fun digits :: "nat \<Rightarrow> string" where
  "digits n =
     (if n < 10 then [''0123456789'' ! n]
      else digits (n div 10) @ [''0123456789'' ! (n mod 10)])"

declare digits.simps [simp del]

definition str_int :: "int \<Rightarrow> string" where
  "str_int i = (if i < 0 then CHR ''-'' # digits (nat (- i)) else digits (nat i))"

subsection \<open>The SQL statements\<close>

text \<open>\<^verbatim>\<open>INSERT INTO documents (doc_number, title, doc_type, status, org_id, project_id, created_at)\<close>:
  the new row has no current revision; \<^verbatim>\<open>UNIQUE(doc_number, org_id, project_id)\<close>.\<close>

definition insert_document ::
  "connection \<Rightarrow> string \<Rightarrow> string \<Rightarrow> string option \<Rightarrow> string option \<Rightarrow> int \<Rightarrow> int \<Rightarrow> string
     \<Rightarrow> database \<Rightarrow> error + (int \<times> database)" where
  "insert_document c doc_number title doc_type status org_id project_id now db =
     (if \<exists>d \<in> set (documents db).
           d_doc_number d = doc_number \<and> d_org_id d = org_id \<and> d_project_id d = project_id
      then Inl IntegrityError
      else if foreign_keys c \<and>
              \<not> (org_id \<in> set (map o_id (organizations db)) \<and>
                 project_id \<in> set (map p_id (projects db)))
      then Inl IntegrityError
      else
        let doc_id = new_rowid (seq_documents db) (map d_id (documents db)) in
        Inr (doc_id,
             db\<lparr>documents := documents db @
                   [\<lparr>d_id = doc_id, d_doc_number = doc_number, d_title = title,
                     d_doc_type = doc_type, d_status = status, d_org_id = org_id,
                     d_project_id = project_id, d_current_revision_id = None,
                     d_created_at = now\<rparr>],
                seq_documents := nat doc_id\<rparr>))"

text \<open>\<^verbatim>\<open>INSERT INTO document_revisions (document_id, revision, file_path, uploaded_by, uploaded_at)\<close>.\<close>

definition insert_document_revision ::
  "connection \<Rightarrow> int \<Rightarrow> string \<Rightarrow> string \<Rightarrow> int \<Rightarrow> string
     \<Rightarrow> database \<Rightarrow> error + (int \<times> database)" where
  "insert_document_revision c document_id revision_label file_path uploaded_by now db =
     (if foreign_keys c \<and>
         \<not> (document_id \<in> set (map d_id (documents db)) \<and>
            uploaded_by \<in> set (map u_id (users db)))
      then Inl IntegrityError
      else
        let rev_id = new_rowid (seq_document_revisions db) (map r_id (document_revisions db)) in
        Inr (rev_id,
             db\<lparr>document_revisions := document_revisions db @
                   [\<lparr>r_id = rev_id, r_document_id = document_id, r_revision = revision_label,
                     r_file_path = file_path, r_uploaded_by = uploaded_by,
                     r_uploaded_at = now\<rparr>],
                seq_document_revisions := nat rev_id\<rparr>))"

text \<open>\<^verbatim>\<open>UPDATE documents SET current_revision_id=? WHERE id=?\<close>: what the statement
  does to one row, and to the table (the column carries no FOREIGN KEY clause).\<close>

definition set_current_revision :: "int \<Rightarrow> int \<Rightarrow> document \<Rightarrow> document" where
  "set_current_revision rev_id doc_id d =
     (if d_id d = doc_id then d\<lparr>d_current_revision_id := Some rev_id\<rparr> else d)"

definition update_current_revision :: "int \<Rightarrow> int \<Rightarrow> database \<Rightarrow> database" where
  "update_current_revision rev_id doc_id db =
     db\<lparr>documents := map (set_current_revision rev_id doc_id) (documents db)\<rparr>"

text \<open>\<^verbatim>\<open>INSERT INTO events (document_id, revision_id, user_id, event_type, timestamp, notes)\<close>;
  the two statements that name no \<^verbatim>\<open>notes\<close> column store NULL there.\<close>

definition insert_event ::
  "connection \<Rightarrow> int \<Rightarrow> int option \<Rightarrow> int \<Rightarrow> string \<Rightarrow> string \<Rightarrow> string option
     \<Rightarrow> database \<Rightarrow> error + (int \<times> database)" where
  "insert_event c document_id revision_id user_id event_type now notes db =
     (if foreign_keys c \<and>
         \<not> (document_id \<in> set (map d_id (documents db)) \<and>
            (case revision_id of None \<Rightarrow> True
             | Some r \<Rightarrow> r \<in> set (map r_id (document_revisions db))) \<and>
            user_id \<in> set (map u_id (users db)))
      then Inl IntegrityError
      else
        let ev_id = new_rowid (seq_events db) (map e_id (events db)) in
        Inr (ev_id,
             db\<lparr>events := events db @
                   [\<lparr>e_id = ev_id, e_document_id = document_id, e_revision_id = revision_id,
                     e_user_id = user_id, e_event_type = event_type, e_timestamp = now,
                     e_notes = notes\<rparr>],
                seq_events := nat ev_id\<rparr>))"

text \<open>\<^verbatim>\<open>INSERT INTO transmittals (transmittal_number, description, sender_org_id, recipient_org_id, created_by, created_at)\<close>.\<close>

definition insert_transmittal ::
  "connection \<Rightarrow> string \<Rightarrow> string \<Rightarrow> int \<Rightarrow> int \<Rightarrow> int \<Rightarrow> string
     \<Rightarrow> database \<Rightarrow> error + (int \<times> database)" where
  "insert_transmittal c transmittal_number description sender_org_id recipient_org_id
       created_by now db =
     (if foreign_keys c \<and>
         \<not> (sender_org_id \<in> set (map o_id (organizations db)) \<and>
            recipient_org_id \<in> set (map o_id (organizations db)) \<and>
            created_by \<in> set (map u_id (users db)))
      then Inl IntegrityError
      else
        let trans_id = new_rowid (seq_transmittals db) (map t_id (transmittals db)) in
        Inr (trans_id,
             db\<lparr>transmittals := transmittals db @
                   [\<lparr>t_id = trans_id, t_transmittal_number = transmittal_number,
                     t_description = Some description, t_sender_org_id = sender_org_id,
                     t_recipient_org_id = recipient_org_id, t_created_by = created_by,
                     t_created_at = now\<rparr>],
                seq_transmittals := nat trans_id\<rparr>))"

text \<open>\<^verbatim>\<open>INSERT INTO transmittal_documents (transmittal_id, revision_id)\<close>;
  \<^verbatim>\<open>PRIMARY KEY(transmittal_id, revision_id)\<close>.\<close>

definition insert_transmittal_document ::
  "connection \<Rightarrow> int \<Rightarrow> int \<Rightarrow> database \<Rightarrow> error + database" where
  "insert_transmittal_document c trans_id rev_id db =
     (if \<lparr>l_transmittal_id = trans_id, l_revision_id = rev_id\<rparr> \<in> set (transmittal_documents db)
      then Inl IntegrityError
      else if foreign_keys c \<and>
              \<not> (trans_id \<in> set (map t_id (transmittals db)) \<and>
                 rev_id \<in> set (map r_id (document_revisions db)))
      then Inl IntegrityError
      else Inr (db\<lparr>transmittal_documents := transmittal_documents db @
                     [\<lparr>l_transmittal_id = trans_id, l_revision_id = rev_id\<rparr>]\<rparr>))"

text \<open>The queries; \<^verbatim>\<open>fetchone()\<close> returns the first row of the result or
  \<^verbatim>\<open>None\<close>.\<close>

definition get_document :: "database \<Rightarrow> int \<Rightarrow> document option" where
  "get_document db doc_id = find (\<lambda>d. d_id d = doc_id) (documents db)"

definition get_revision :: "database \<Rightarrow> int \<Rightarrow> document_revision option" where
  "get_revision db rev_id = find (\<lambda>r. r_id r = rev_id) (document_revisions db)"

definition get_project :: "database \<Rightarrow> int \<Rightarrow> project option" where
  "get_project db project_id = find (\<lambda>p. p_id p = project_id) (projects db)"

text \<open>\<^verbatim>\<open>SELECT id FROM documents WHERE doc_number=? AND org_id=? AND project_id=?\<close>.\<close>

definition select_document_id :: "database \<Rightarrow> string \<Rightarrow> int \<Rightarrow> int \<Rightarrow> int option" where
  "select_document_id db doc_number org_id project_id =
     map_option d_id
       (find (\<lambda>d. d_doc_number d = doc_number \<and> d_org_id d = org_id \<and>
                   d_project_id d = project_id) (documents db))"

text \<open>\<^verbatim>\<open>SELECT * FROM document_revisions WHERE document_id=? ORDER BY uploaded_at DESC\<close>.
  Timestamps are compared as byte strings (the BINARY collation). SQL leaves the order of
  rows with equal timestamps open; here they keep their rowid order, and nothing below
  depends on that choice.\<close>

definition get_revisions_for_document :: "database \<Rightarrow> int \<Rightarrow> document_revision list" where
  "get_revisions_for_document db doc_id =
     rev (sort_key r_uploaded_at
            (rev (filter (\<lambda>r. r_document_id r = doc_id) (document_revisions db))))"

text \<open>The label of a document's current revision, as \<^verbatim>\<open>list_documents\<close> of
  \<^verbatim>\<open>main.py\<close> computes it for each document: \<^verbatim>\<open>if rev_id:\<close> skips NULL and 0,
  \<^verbatim>\<open>if rev_row:\<close> skips a dangling pointer.\<close>

definition get_current_revision_label :: "database \<Rightarrow> int \<Rightarrow> string option" where
  "get_current_revision_label db doc_id =
     (case get_document db doc_id of
        None \<Rightarrow> None
      | Some doc \<Rightarrow>
          (case d_current_revision_id doc of
             None \<Rightarrow> None
           | Some rev_id \<Rightarrow>
               if rev_id = 0 then None
               else map_option r_revision (get_revision db rev_id)))"

subsection \<open>The operations\<close>

text \<open>\<^verbatim>\<open>create_document\<close>: the statements between \<^verbatim>\<open>get_conn()\<close> and
  \<^verbatim>\<open>conn.commit()\<close>, then the function itself.\<close>

definition create_document_statements ::
  "connection \<Rightarrow> string \<Rightarrow> string \<Rightarrow> string \<Rightarrow> string \<Rightarrow> int \<Rightarrow> int \<Rightarrow> string \<Rightarrow> string \<Rightarrow> int
     \<Rightarrow> string \<Rightarrow> database \<Rightarrow> error + (int \<times> database)" where
  "create_document_statements c doc_number title doc_type status org_id project_id
       revision_label file_path uploaded_by now db =
     (case insert_document c doc_number title (Some doc_type) (Some status) org_id project_id
             now db of
        Inl e \<Rightarrow> Inl e
      | Inr (doc_id, db1) \<Rightarrow>
          (case insert_document_revision c doc_id revision_label file_path uploaded_by now db1 of
             Inl e \<Rightarrow> Inl e
           | Inr (rev_id, db2) \<Rightarrow>
               (case insert_event c doc_id (Some rev_id) uploaded_by ''Uploaded'' now None
                       (update_current_revision rev_id doc_id db2) of
                  Inl e \<Rightarrow> Inl e
                | Inr (ev_id, db3) \<Rightarrow> Inr (doc_id, db3))))"

definition create_document ::
  "string \<Rightarrow> string \<Rightarrow> string \<Rightarrow> string \<Rightarrow> int \<Rightarrow> int \<Rightarrow> string \<Rightarrow> string \<Rightarrow> int
     \<Rightarrow> string \<Rightarrow> database \<Rightarrow> (error + int) \<times> database" where
  "create_document doc_number title doc_type status org_id project_id
       revision_label file_path uploaded_by now db =
     (case create_document_statements get_conn doc_number title doc_type status org_id
             project_id revision_label file_path uploaded_by now db of
        Inl e \<Rightarrow> (Inl e, db)
      | Inr (doc_id, db') \<Rightarrow> (Inr doc_id, db'))"

text \<open>\<^verbatim>\<open>add_document_revision\<close>.\<close>

definition add_document_revision_statements ::
  "connection \<Rightarrow> int \<Rightarrow> string \<Rightarrow> string \<Rightarrow> int \<Rightarrow> string \<Rightarrow> database
     \<Rightarrow> error + (int \<times> database)" where
  "add_document_revision_statements c document_id revision_label file_path uploaded_by now db =
     (case insert_document_revision c document_id revision_label file_path uploaded_by now db of
        Inl e \<Rightarrow> Inl e
      | Inr (rev_id, db1) \<Rightarrow>
          (case insert_event c document_id (Some rev_id) uploaded_by ''RevisionUploaded'' now
                  None (update_current_revision rev_id document_id db1) of
             Inl e \<Rightarrow> Inl e
           | Inr (ev_id, db2) \<Rightarrow> Inr (rev_id, db2)))"

definition add_document_revision ::
  "int \<Rightarrow> string \<Rightarrow> string \<Rightarrow> int \<Rightarrow> string \<Rightarrow> database \<Rightarrow> (error + int) \<times> database" where
  "add_document_revision document_id revision_label file_path uploaded_by now db =
     (case add_document_revision_statements get_conn document_id revision_label file_path
             uploaded_by now db of
        Inl e \<Rightarrow> (Inl e, db)
      | Inr (rev_id, db') \<Rightarrow> (Inr rev_id, db'))"

text \<open>\<^verbatim>\<open>create_transmittal\<close>: the note of the \<^verbatim>\<open>Sent\<close> event, the body of the
  \<^verbatim>\<open>for rev_id in document_revision_ids\<close> loop, the loop, the statements of the
  transaction, and the function. The body reads the sent revision three times (its
  \<^verbatim>\<open>document_id\<close>, its \<^verbatim>\<open>revision\<close> and its \<^verbatim>\<open>file_path\<close>), each with
  \<^verbatim>\<open>fetchone()[0]\<close>, and unpacks the owning document's row.\<close>

definition sent_note :: "string \<Rightarrow> int \<Rightarrow> string" where
  "sent_note transmittal_number recipient_org_id =
     ''Transmittal '' @ transmittal_number @ '' sent to org '' @ str_int recipient_org_id"

definition transmit_revision ::
  "connection \<Rightarrow> string \<Rightarrow> int \<Rightarrow> int \<Rightarrow> string \<Rightarrow> int \<Rightarrow> int \<Rightarrow> database \<Rightarrow> error + database" where
  "transmit_revision c transmittal_number recipient_org_id created_by now trans_id rev_id db =
     (case insert_transmittal_document c trans_id rev_id db of
        Inl e \<Rightarrow> Inl e
      | Inr db1 \<Rightarrow>
    (case map_option r_document_id (get_revision db1 rev_id) of
        None \<Rightarrow> Inl TypeError
      | Some doc_id \<Rightarrow>
    (case insert_event c doc_id (Some rev_id) created_by ''Sent'' now
            (Some (sent_note transmittal_number recipient_org_id)) db1 of
        Inl e \<Rightarrow> Inl e
      | Inr (ev_id, db2) \<Rightarrow>
    (case get_document db2 doc_id of
        None \<Rightarrow> Inl TypeError
      | Some row \<Rightarrow>
    (case select_document_id db2 (d_doc_number row) recipient_org_id (d_project_id row) of
        None \<Rightarrow>
          (case insert_document c (d_doc_number row) (d_title row) (d_doc_type row)
                  (d_status row) recipient_org_id (d_project_id row) now db2 of
             Inl e \<Rightarrow> Inl e
           | Inr (new_doc_id, db3) \<Rightarrow>
          (case map_option r_revision (get_revision db3 rev_id) of
             None \<Rightarrow> Inl TypeError
           | Some new_rev_label \<Rightarrow>
          (case map_option r_file_path (get_revision db3 rev_id) of
             None \<Rightarrow> Inl TypeError
           | Some new_file_path \<Rightarrow>
          (case insert_document_revision c new_doc_id new_rev_label new_file_path created_by
                  now db3 of
             Inl e \<Rightarrow> Inl e
           | Inr (new_rev_id, db4) \<Rightarrow>
               Inr (update_current_revision new_rev_id new_doc_id db4)))))
      | Some existing_doc_id \<Rightarrow>
          (case map_option r_revision (get_revision db2 rev_id) of
             None \<Rightarrow> Inl TypeError
           | Some new_rev_label \<Rightarrow>
          (case map_option r_file_path (get_revision db2 rev_id) of
             None \<Rightarrow> Inl TypeError
           | Some new_file_path \<Rightarrow>
          (case insert_document_revision c existing_doc_id new_rev_label new_file_path
                  created_by now db2 of
             Inl e \<Rightarrow> Inl e
           | Inr (new_rev_id, db3) \<Rightarrow>
               Inr (update_current_revision new_rev_id existing_doc_id db3)))))))))"

fun transmit_revisions ::
  "connection \<Rightarrow> string \<Rightarrow> int \<Rightarrow> int \<Rightarrow> string \<Rightarrow> int \<Rightarrow> int list \<Rightarrow> database
     \<Rightarrow> error + database" where
  "transmit_revisions c transmittal_number recipient_org_id created_by now trans_id [] db =
     Inr db"
| "transmit_revisions c transmittal_number recipient_org_id created_by now trans_id
       (rev_id # rest) db =
     (case transmit_revision c transmittal_number recipient_org_id created_by now trans_id
             rev_id db of
        Inl e \<Rightarrow> Inl e
      | Inr db' \<Rightarrow>
          transmit_revisions c transmittal_number recipient_org_id created_by now trans_id
            rest db')"

definition create_transmittal_statements ::
  "connection \<Rightarrow> string \<Rightarrow> string \<Rightarrow> int \<Rightarrow> int \<Rightarrow> int list \<Rightarrow> int \<Rightarrow> string \<Rightarrow> database
     \<Rightarrow> error + (int \<times> database)" where
  "create_transmittal_statements c transmittal_number description sender_org_id
       recipient_org_id document_revision_ids created_by now db =
     (case insert_transmittal c transmittal_number description sender_org_id recipient_org_id
             created_by now db of
        Inl e \<Rightarrow> Inl e
      | Inr (trans_id, db1) \<Rightarrow>
          (case transmit_revisions c transmittal_number recipient_org_id created_by now
                  trans_id document_revision_ids db1 of
             Inl e \<Rightarrow> Inl e
           | Inr db2 \<Rightarrow> Inr (trans_id, db2)))"

definition create_transmittal ::
  "string \<Rightarrow> string \<Rightarrow> int \<Rightarrow> int \<Rightarrow> int list \<Rightarrow> int \<Rightarrow> string \<Rightarrow> database
     \<Rightarrow> (error + int) \<times> database" where
  "create_transmittal transmittal_number description sender_org_id recipient_org_id
       document_revision_ids created_by now db =
     (case create_transmittal_statements get_conn transmittal_number description
             sender_org_id recipient_org_id document_revision_ids created_by now db of
        Inl e \<Rightarrow> (Inl e, db)
      | Inr (trans_id, db') \<Rightarrow> (Inr trans_id, db'))"

section \<open>Properties of the store\<close>

subsection \<open>The current-revision invariant\<close>

text \<open>
  The revision most recently appended to a document is the last row of
  \<^verbatim>\<open>document_revisions\<close> (rows stand in insertion order) that names the document.
  The invariant: every document row points to it, and holds NULL exactly when no revision
  names the document.
\<close>

definition latest_revision_id :: "database \<Rightarrow> int \<Rightarrow> int option" where
  "latest_revision_id db doc_id =
     (let rs = filter (\<lambda>r. r_document_id r = doc_id) (document_revisions db)
      in if rs = [] then None else Some (r_id (last rs)))"

definition current_revision_ok :: "database \<Rightarrow> bool" where
  "current_revision_ok db =
     (\<forall>d \<in> set (documents db). d_current_revision_id d = latest_revision_id db (d_id d))"

text \<open>The invariant for all documents but those with id \<open>x\<close>: what holds between the
  insertion of a revision for \<open>x\<close> and the update of the pointer.\<close>

definition current_revision_ok_except :: "int \<Rightarrow> database \<Rightarrow> bool" where
  "current_revision_ok_except x db =
     (\<forall>d \<in> set (documents db). d_id d \<noteq> x \<longrightarrow> d_current_revision_id d = latest_revision_id db (d_id d))"

subsection \<open>The rows a send writes\<close>

text \<open>The rows that one pass of the loop of \<^verbatim>\<open>create_transmittal\<close> inserts, named
  for the statements of the lemmas: the document created in the recipient's register from
  the owning document's row, the revision appended there from the sent revision, and
  the \<^verbatim>\<open>Sent\<close> event.\<close>

definition replica_document :: "document \<Rightarrow> int \<Rightarrow> int \<Rightarrow> string \<Rightarrow> document" where
  "replica_document row new_doc_id recipient_org_id now =
     \<lparr>d_id = new_doc_id, d_doc_number = d_doc_number row, d_title = d_title row,
      d_doc_type = d_doc_type row, d_status = d_status row, d_org_id = recipient_org_id,
      d_project_id = d_project_id row, d_current_revision_id = None, d_created_at = now\<rparr>"

definition replica_revision :: "document_revision \<Rightarrow> int \<Rightarrow> int \<Rightarrow> int \<Rightarrow> string \<Rightarrow> document_revision" where
  "replica_revision src new_rev_id target created_by now =
     \<lparr>r_id = new_rev_id, r_document_id = target, r_revision = r_revision src,
      r_file_path = r_file_path src, r_uploaded_by = created_by, r_uploaded_at = now\<rparr>"

definition sent_event :: "int \<Rightarrow> int \<Rightarrow> int \<Rightarrow> int \<Rightarrow> string \<Rightarrow> string \<Rightarrow> event" where
  "sent_event ev_id doc_id rev_id created_by now note =
     \<lparr>e_id = ev_id, e_document_id = doc_id, e_revision_id = Some rev_id,
      e_user_id = created_by, e_event_type = ''Sent'', e_timestamp = now, e_notes = Some note\<rparr>"

subsection \<open>What a send leaves behind\<close>

text \<open>
  Later states of one transaction extend earlier ones: the revision ledger, the event log
  and the link table only grow at the end, and the document table grows at the end while
  its rows change in their current-revision pointer only.
\<close>

definition strip_current :: "document \<Rightarrow> document" where
  "strip_current d = d\<lparr>d_current_revision_id := None\<rparr>"

definition extends :: "database \<Rightarrow> database \<Rightarrow> bool" where
  "extends db db' \<longleftrightarrow>
     prefix (document_revisions db) (document_revisions db') \<and>
     prefix (events db) (events db') \<and>
     prefix (transmittal_documents db) (transmittal_documents db') \<and>
     prefix (map strip_current (documents db)) (map strip_current (documents db')) \<and>
     transmittals db' = transmittals db \<and> projects db' = projects db \<and>
     users db' = users db \<and> organizations db' = organizations db"

text \<open>
  What the send of revision \<open>rev_id\<close> under transmittal \<open>trans_id\<close> has persisted in
  \<open>db'\<close>, the store before the send being \<open>db\<close>: the link; a \<^verbatim>\<open>Sent\<close> event, new in
  \<open>db'\<close>, on the revision's document, by the creator, with the note naming the transmittal
  number and the recipient; and a revision, new in \<open>db'\<close>, with the sent revision's label
  and file path, uploaded by the creator, on a document of the recipient organization
  that has the owning document's number and project.
\<close>

definition revision_transmitted ::
  "database \<Rightarrow> database \<Rightarrow> string \<Rightarrow> int \<Rightarrow> int \<Rightarrow> int \<Rightarrow> int \<Rightarrow> bool" where
  "revision_transmitted db db' transmittal_number recipient_org_id created_by trans_id rev_id =
     (\<lparr>l_transmittal_id = trans_id, l_revision_id = rev_id\<rparr> \<in> set (transmittal_documents db') \<and>
      (case get_revision db' rev_id of
         None \<Rightarrow> False
       | Some src \<Rightarrow>
           (\<exists>ev \<in> set (events db').
              e_id ev \<notin> set (map e_id (events db)) \<and>
              e_document_id ev = r_document_id src \<and> e_revision_id ev = Some rev_id \<and>
              e_user_id ev = created_by \<and> e_event_type ev = ''Sent'' \<and>
              e_notes ev = Some (sent_note transmittal_number recipient_org_id)) \<and>
           (\<exists>rep \<in> set (document_revisions db').
              r_id rep \<notin> set (map r_id (document_revisions db)) \<and>
              r_revision rep = r_revision src \<and> r_file_path rep = r_file_path src \<and>
              r_uploaded_by rep = created_by \<and>
              (\<exists>d \<in> set (documents db').
                 d_id d = r_document_id rep \<and> d_org_id d = recipient_org_id \<and>
                 (case get_document db' (r_document_id src) of
                    None \<Rightarrow> False
                  | Some srcdoc \<Rightarrow>
                      d_doc_number d = d_doc_number srcdoc \<and>
                      d_project_id d = d_project_id srcdoc)))))"

subsection \<open>Revision ids that resolve\<close>

text \<open>
  The loop of \<^verbatim>\<open>create_transmittal\<close> looks a revision id up when it reaches it, and
  every pass before has appended one replicated revision, which received the next free
  rowid. So the id at position \<open>j\<close> of the list (counting from 0) can resolve in two ways:
  it is the id of a revision of the store, or it is one of the \<open>j\<close> rowids that the
  replicas of the passes before it receive.
\<close>

definition resolves_at :: "database \<Rightarrow> int list \<Rightarrow> nat \<Rightarrow> bool" where
  "resolves_at db document_revision_ids j =
     (let rev_id = document_revision_ids ! j;
          next_id = new_rowid (seq_document_revisions db) (map r_id (document_revisions db))
      in get_revision db rev_id \<noteq> None \<or> (next_id \<le> rev_id \<and> rev_id < next_id + int j))"

subsection \<open>References into the document table\<close>

text \<open>
  The schema declares \<^verbatim>\<open>FOREIGN KEY(document_id) REFERENCES documents(id)\<close> on events
  and on revisions. The two consequences of it that the claims about a newly created
  document rest on: no \<^verbatim>\<open>Uploaded\<close> event, and no revision, names a document that
  the document table does not hold.
\<close>

definition uploaded_events_ok :: "database \<Rightarrow> bool" where
  "uploaded_events_ok db =
     (\<forall>e \<in> set (events db).
        e_event_type e = ''Uploaded'' \<longrightarrow> e_document_id e \<in> set (map d_id (documents db)))"

definition revisions_reference_documents :: "database \<Rightarrow> bool" where
  "revisions_reference_documents db =
     (\<forall>r \<in> set (document_revisions db). r_document_id r \<in> set (map d_id (documents db)))"

subsection \<open>Successive uploads\<close>

text \<open>A sequence of \<^verbatim>\<open>add_document_revision\<close> calls on one document, each with its
  revision label, file path, uploader and clock reading; it stops at the first call that
  raises.\<close>

type_synonym revision_upload = "string \<times> string \<times> int \<times> string"

fun add_document_revisions ::
  "int \<Rightarrow> revision_upload list \<Rightarrow> database \<Rightarrow> error + database" where
  "add_document_revisions document_id [] db = Inr db"
| "add_document_revisions document_id ((revision_label, file_path, uploaded_by, now) # rest) db =
     (case add_document_revision document_id revision_label file_path uploaded_by now db of
        (Inl e, db') \<Rightarrow> Inl e
      | (Inr rev_id, db') \<Rightarrow> add_document_revisions document_id rest db')"

subsection \<open>Replication into the recipient's register\<close>

text \<open>The document that owns a revision, found as the loop of \<^verbatim>\<open>create_transmittal\<close>
  finds it: the revision by its id, then the document by the revision's
  \<^verbatim>\<open>document_id\<close>.\<close>

definition source_document :: "database \<Rightarrow> int \<Rightarrow> document option" where
  "source_document db rev_id =
     (case get_revision db rev_id of
        None \<Rightarrow> None
      | Some r \<Rightarrow> get_document db (r_document_id r))"

text \<open>
  The current revision of document \<open>d\<close> is a revision of \<open>d\<close> that carries the label and
  the file path of revision \<open>r\<close> and is attributed to \<open>created_by\<close>.
\<close>

definition current_revision_matches ::
  "database \<Rightarrow> document \<Rightarrow> document_revision \<Rightarrow> int \<Rightarrow> bool" where
  "current_revision_matches db d r created_by =
     (case d_current_revision_id d of
        None \<Rightarrow> False
      | Some cur \<Rightarrow>
          (case get_revision db cur of
             None \<Rightarrow> False
           | Some v \<Rightarrow>
               r_document_id v = d_id d \<and> r_revision v = r_revision r \<and>
               r_file_path v = r_file_path r \<and> r_uploaded_by v = created_by))"

text \<open>
  The round trip, in two strengths. \<open>replicated_identically\<close>: the register of the
  recipient organization holds a document with the number, title, type, status and project
  of \<open>d\<close> whose current revision matches \<open>r\<close>. \<open>replicated_by_key\<close>: the same with the
  number and project only, the key by which \<^verbatim>\<open>create_transmittal\<close> looks the recipient's
  document up.
\<close>

definition replicated_by_key ::
  "database \<Rightarrow> int \<Rightarrow> int \<Rightarrow> document \<Rightarrow> document_revision \<Rightarrow> bool" where
  "replicated_by_key db recipient_org_id created_by d r =
     (\<exists>d' \<in> set (documents db).
        d_org_id d' = recipient_org_id \<and> d_doc_number d' = d_doc_number d \<and>
        d_project_id d' = d_project_id d \<and> current_revision_matches db d' r created_by)"

definition replicated_identically ::
  "database \<Rightarrow> int \<Rightarrow> int \<Rightarrow> document \<Rightarrow> document_revision \<Rightarrow> bool" where
  "replicated_identically db recipient_org_id created_by d r =
     (\<exists>d' \<in> set (documents db).
        d_org_id d' = recipient_org_id \<and> d_doc_number d' = d_doc_number d \<and>
        d_title d' = d_title d \<and> d_doc_type d' = d_doc_type d \<and> d_status d' = d_status d \<and>
        d_project_id d' = d_project_id d \<and> current_revision_matches db d' r created_by)"

text \<open>
  A document \<open>d'\<close> of the recipient organization that is a copy of the document owning one
  of the sent revisions: same number, title, type, status and project.
\<close>

definition same_identity :: "document \<Rightarrow> document \<Rightarrow> bool" where
  "same_identity d' d \<longleftrightarrow>
     d_doc_number d' = d_doc_number d \<and> d_title d' = d_title d \<and>
     d_doc_type d' = d_doc_type d \<and> d_status d' = d_status d \<and>
     d_project_id d' = d_project_id d"

definition replica_of_sent :: "database \<Rightarrow> int \<Rightarrow> int list \<Rightarrow> document \<Rightarrow> bool" where
  "replica_of_sent db recipient_org_id document_revision_ids d' \<longleftrightarrow>
     d_org_id d' = recipient_org_id \<and>
     (\<exists>rev_id \<in> set document_revision_ids.
        case source_document db rev_id of
          None \<Rightarrow> False
        | Some d \<Rightarrow> same_identity d' d)"

subsection \<open>The organization that owns a project\<close>

text \<open>
  The \<^verbatim>\<open>org_id\<close> column of the row of the \<^verbatim>\<open>projects\<close> table with the given id.
\<close>

definition project_owner :: "database \<Rightarrow> int \<Rightarrow> int option" where
  "project_owner db project_id = map_option p_org_id (get_project db project_id)"

section \<open>A register to run the operations on\<close>

text \<open>
  Org A (id 1) and Org B (id 2), one user of Org A, project P1 of Org A, and document
  DOC-001 of Org A in P1 with its initial revision A and the \<^verbatim>\<open>Uploaded\<close> event:
  the store after \<^verbatim>\<open>create_document\<close> has run once on fresh tables.
\<close>

definition org_a_db :: database where
  "org_a_db =
     \<lparr>organizations = [\<lparr>o_id = 1, o_name = ''Org A''\<rparr>, \<lparr>o_id = 2, o_name = ''Org B''\<rparr>],
      users = [\<lparr>u_id = 1, u_name = Some ''Ana'', u_org_id = Some 1\<rparr>],
      projects = [\<lparr>p_id = 1, p_name = ''P1'', p_org_id = 1\<rparr>],
      documents =
        [\<lparr>d_id = 1, d_doc_number = ''DOC-001'', d_title = ''Site plan'',
          d_doc_type = Some ''DWG'', d_status = Some ''IFR'', d_org_id = 1, d_project_id = 1,
          d_current_revision_id = Some 1, d_created_at = ''2024-01-01T10:00:00''\<rparr>],
      document_revisions =
        [\<lparr>r_id = 1, r_document_id = 1, r_revision = ''A'', r_file_path = ''uploads/a.pdf'',
          r_uploaded_by = 1, r_uploaded_at = ''2024-01-01T10:00:00''\<rparr>],
      events =
        [\<lparr>e_id = 1, e_document_id = 1, e_revision_id = Some 1, e_user_id = 1,
          e_event_type = ''Uploaded'', e_timestamp = ''2024-01-01T10:00:00'', e_notes = None\<rparr>],
      transmittals = [],
      transmittal_documents = [],
      seq_documents = 1, seq_document_revisions = 1, seq_events = 1, seq_transmittals = 0\<rparr>"

text \<open>The store after Org A has sent revision 1 to Org B as transmittal TR-1.\<close>

definition tr1_db :: database where
  "tr1_db =
     \<lparr>organizations = [\<lparr>o_id = 1, o_name = ''Org A''\<rparr>, \<lparr>o_id = 2, o_name = ''Org B''\<rparr>],
      users = [\<lparr>u_id = 1, u_name = Some ''Ana'', u_org_id = Some 1\<rparr>],
      projects = [\<lparr>p_id = 1, p_name = ''P1'', p_org_id = 1\<rparr>],
      documents =
        [\<lparr>d_id = 1, d_doc_number = ''DOC-001'', d_title = ''Site plan'',
          d_doc_type = Some ''DWG'', d_status = Some ''IFR'', d_org_id = 1, d_project_id = 1,
          d_current_revision_id = Some 1, d_created_at = ''2024-01-01T10:00:00''\<rparr>,
         \<lparr>d_id = 2, d_doc_number = ''DOC-001'', d_title = ''Site plan'',
          d_doc_type = Some ''DWG'', d_status = Some ''IFR'', d_org_id = 2, d_project_id = 1,
          d_current_revision_id = Some 2, d_created_at = ''2024-01-04T09:00:00''\<rparr>],
      document_revisions =
        [\<lparr>r_id = 1, r_document_id = 1, r_revision = ''A'', r_file_path = ''uploads/a.pdf'',
          r_uploaded_by = 1, r_uploaded_at = ''2024-01-01T10:00:00''\<rparr>,
         \<lparr>r_id = 2, r_document_id = 2, r_revision = ''A'', r_file_path = ''uploads/a.pdf'',
          r_uploaded_by = 1, r_uploaded_at = ''2024-01-04T09:00:00''\<rparr>],
      events =
        [\<lparr>e_id = 1, e_document_id = 1, e_revision_id = Some 1, e_user_id = 1,
          e_event_type = ''Uploaded'', e_timestamp = ''2024-01-01T10:00:00'', e_notes = None\<rparr>,
         \<lparr>e_id = 2, e_document_id = 1, e_revision_id = Some 1, e_user_id = 1,
          e_event_type = ''Sent'', e_timestamp = ''2024-01-04T09:00:00'',
          e_notes = Some ''Transmittal TR-1 sent to org 2''\<rparr>],
      transmittals =
        [\<lparr>t_id = 1, t_transmittal_number = ''TR-1'', t_description = Some ''for review'',
          t_sender_org_id = 1, t_recipient_org_id = 2, t_created_by = 1,
          t_created_at = ''2024-01-04T09:00:00''\<rparr>],
      transmittal_documents = [\<lparr>l_transmittal_id = 1, l_revision_id = 1\<rparr>],
      seq_documents = 2, seq_document_revisions = 2, seq_events = 2, seq_transmittals = 1\<rparr>"

text \<open>The store after a send with no revision ids.\<close>

definition empty_send_db :: database where
  "empty_send_db =
     org_a_db\<lparr>transmittals :=
         [\<lparr>t_id = 1, t_transmittal_number = ''TR-2'', t_description = Some ''nothing'',
           t_sender_org_id = 1, t_recipient_org_id = 2, t_created_by = 1,
           t_created_at = ''2024-01-05T09:00:00''\<rparr>],
       seq_transmittals := 1\<rparr>"

text \<open>The store after \<^verbatim>\<open>add_document_revision\<close> has been called with document id 99,
  an id the document table does not hold.\<close>

definition orphan_revision_db :: database where
  "orphan_revision_db =
     org_a_db\<lparr>document_revisions := document_revisions org_a_db @
         [\<lparr>r_id = 2, r_document_id = 99, r_revision = ''B'', r_file_path = ''uploads/x.pdf'',
           r_uploaded_by = 1, r_uploaded_at = ''2024-01-06T09:00:00''\<rparr>],
       events := events org_a_db @
         [\<lparr>e_id = 2, e_document_id = 99, e_revision_id = Some 2, e_user_id = 1,
           e_event_type = ''RevisionUploaded'', e_timestamp = ''2024-01-06T09:00:00'',
           e_notes = None\<rparr>],
       seq_document_revisions := 2, seq_events := 2\<rparr>"

text \<open>The store after Org A has created a second document, DOC-002 with revision 0.\<close>

definition two_documents_db :: database where
  "two_documents_db =
     org_a_db\<lparr>documents := documents org_a_db @
         [\<lparr>d_id = 2, d_doc_number = ''DOC-002'', d_title = ''Section'',
           d_doc_type = Some ''DWG'', d_status = Some ''IFR'', d_org_id = 1, d_project_id = 1,
           d_current_revision_id = Some 2, d_created_at = ''2024-01-02T09:00:00''\<rparr>],
       document_revisions := document_revisions org_a_db @
         [\<lparr>r_id = 2, r_document_id = 2, r_revision = ''0'', r_file_path = ''uploads/b.pdf'',
           r_uploaded_by = 1, r_uploaded_at = ''2024-01-02T09:00:00''\<rparr>],
       events := events org_a_db @
         [\<lparr>e_id = 2, e_document_id = 2, e_revision_id = Some 2, e_user_id = 1,
           e_event_type = ''Uploaded'', e_timestamp = ''2024-01-02T09:00:00'',
           e_notes = None\<rparr>],
       seq_documents := 2, seq_document_revisions := 2, seq_events := 2\<rparr>"

text \<open>The document and the revision of \<open>org_a_db\<close>, by name.\<close>

definition doc_001 :: document where
  "doc_001 =
     \<lparr>d_id = 1, d_doc_number = ''DOC-001'', d_title = ''Site plan'',
      d_doc_type = Some ''DWG'', d_status = Some ''IFR'', d_org_id = 1, d_project_id = 1,
      d_current_revision_id = Some 1, d_created_at = ''2024-01-01T10:00:00''\<rparr>"

definition rev_a :: document_revision where
  "rev_a =
     \<lparr>r_id = 1, r_document_id = 1, r_revision = ''A'', r_file_path = ''uploads/a.pdf'',
      r_uploaded_by = 1, r_uploaded_at = ''2024-01-01T10:00:00''\<rparr>"

text \<open>A register in which Org B already holds a document DOC-001 in project P1, with a title,
  type and status of its own, and the store after Org A has sent revision 1 to Org B
  there: the revision went to Org B's existing document.\<close>

definition org_b_register_db :: database where
  "org_b_register_db =
     org_a_db\<lparr>users := users org_a_db @ [\<lparr>u_id = 2, u_name = Some ''Ben'', u_org_id = Some 2\<rparr>],
       documents := documents org_a_db @
         [\<lparr>d_id = 2, d_doc_number = ''DOC-001'', d_title = ''Old site plan'',
           d_doc_type = Some ''SKETCH'', d_status = Some ''IFA'', d_org_id = 2,
           d_project_id = 1, d_current_revision_id = Some 2,
           d_created_at = ''2023-12-01T08:00:00''\<rparr>],
       document_revisions := document_revisions org_a_db @
         [\<lparr>r_id = 2, r_document_id = 2, r_revision = ''P1'', r_file_path = ''uploads/old.pdf'',
           r_uploaded_by = 2, r_uploaded_at = ''2023-12-01T08:00:00''\<rparr>],
       events := events org_a_db @
         [\<lparr>e_id = 2, e_document_id = 2, e_revision_id = Some 2, e_user_id = 2,
           e_event_type = ''Uploaded'', e_timestamp = ''2023-12-01T08:00:00'',
           e_notes = None\<rparr>],
       seq_documents := 2, seq_document_revisions := 2, seq_events := 2\<rparr>"

definition org_b_received_db :: database where
  "org_b_received_db =
     org_b_register_db\<lparr>
       documents :=
         [doc_001,
          \<lparr>d_id = 2, d_doc_number = ''DOC-001'', d_title = ''Old site plan'',
           d_doc_type = Some ''SKETCH'', d_status = Some ''IFA'', d_org_id = 2,
           d_project_id = 1, d_current_revision_id = Some 3,
           d_created_at = ''2023-12-01T08:00:00''\<rparr>],
       document_revisions := document_revisions org_b_register_db @
         [\<lparr>r_id = 3, r_document_id = 2, r_revision = ''A'', r_file_path = ''uploads/a.pdf'',
           r_uploaded_by = 1, r_uploaded_at = ''2024-01-04T09:00:00''\<rparr>],
       events := events org_b_register_db @
         [\<lparr>e_id = 3, e_document_id = 1, e_revision_id = Some 1, e_user_id = 1,
           e_event_type = ''Sent'', e_timestamp = ''2024-01-04T09:00:00'',
           e_notes = Some ''Transmittal TR-1 sent to org 2''\<rparr>],
       transmittals :=
         [\<lparr>t_id = 1, t_transmittal_number = ''TR-1'', t_description = Some ''for review'',
           t_sender_org_id = 1, t_recipient_org_id = 2, t_created_by = 1,
           t_created_at = ''2024-01-04T09:00:00''\<rparr>],
       transmittal_documents := [\<lparr>l_transmittal_id = 1, l_revision_id = 1\<rparr>],
       seq_document_revisions := 3, seq_events := 3, seq_transmittals := 1\<rparr>"


text \<open>
  The register after the first send, with a third organization and a user of Org B, and
  the store after that user has forwarded Org B's copy of the revision to Org C.
\<close>

definition forward_db :: database where
  "forward_db =
     tr1_db\<lparr>organizations := organizations tr1_db @ [\<lparr>o_id = 3, o_name = ''Org C''\<rparr>],
       users := users tr1_db @ [\<lparr>u_id = 2, u_name = Some ''Ben'', u_org_id = Some 2\<rparr>]\<rparr>"

definition forwarded_db :: database where
  "forwarded_db =
     forward_db\<lparr>
       documents := documents forward_db @
         [doc_001\<lparr>d_id := 3, d_org_id := 3, d_current_revision_id := Some 3,
                  d_created_at := ''2024-01-06T09:00:00''\<rparr>],
       document_revisions := document_revisions forward_db @
         [\<lparr>r_id = 3, r_document_id = 3, r_revision = ''A'', r_file_path = ''uploads/a.pdf'',
           r_uploaded_by = 2, r_uploaded_at = ''2024-01-06T09:00:00''\<rparr>],
       events := events forward_db @
         [\<lparr>e_id = 3, e_document_id = 2, e_revision_id = Some 2, e_user_id = 2,
           e_event_type = ''Sent'', e_timestamp = ''2024-01-06T09:00:00'',
           e_notes = Some ''Transmittal TR-2 sent to org 3''\<rparr>],
       transmittals := transmittals forward_db @
         [\<lparr>t_id = 2, t_transmittal_number = ''TR-2'', t_description = Some ''forward'',
           t_sender_org_id = 2, t_recipient_org_id = 3, t_created_by = 2,
           t_created_at = ''2024-01-06T09:00:00''\<rparr>],
       transmittal_documents := transmittal_documents forward_db @
         [\<lparr>l_transmittal_id = 2, l_revision_id = 2\<rparr>],
       seq_documents := 3, seq_document_revisions := 3, seq_events := 3,
       seq_transmittals := 2\<rparr>"

text \<open>
  The register after a revision has been uploaded to document 2, which does not exist,
  and the store after a second document has then been created.
\<close>

definition orphan_of_2_db :: database where
  "orphan_of_2_db =
     org_a_db\<lparr>document_revisions := document_revisions org_a_db @
         [\<lparr>r_id = 2, r_document_id = 2, r_revision = ''X'', r_file_path = ''uploads/x.pdf'',
           r_uploaded_by = 1, r_uploaded_at = ''2024-01-02T08:00:00''\<rparr>],
       events := events org_a_db @
         [\<lparr>e_id = 2, e_document_id = 2, e_revision_id = Some 2, e_user_id = 1,
           e_event_type = ''RevisionUploaded'', e_timestamp = ''2024-01-02T08:00:00'',
           e_notes = None\<rparr>],
       seq_document_revisions := 2, seq_events := 2\<rparr>"

definition doc_002_on_orphan_db :: database where
  "doc_002_on_orphan_db =
     orphan_of_2_db\<lparr>documents := documents orphan_of_2_db @
         [\<lparr>d_id = 2, d_doc_number = ''DOC-002'', d_title = ''Section'',
           d_doc_type = Some ''DWG'', d_status = Some ''IFR'', d_org_id = 1, d_project_id = 1,
           d_current_revision_id = Some 3, d_created_at = ''2024-01-02T09:00:00''\<rparr>],
       document_revisions := document_revisions orphan_of_2_db @
         [\<lparr>r_id = 3, r_document_id = 2, r_revision = ''0'', r_file_path = ''uploads/b.pdf'',
           r_uploaded_by = 1, r_uploaded_at = ''2024-01-02T09:00:00''\<rparr>],
       events := events orphan_of_2_db @
         [\<lparr>e_id = 3, e_document_id = 2, e_revision_id = Some 3, e_user_id = 1,
           e_event_type = ''Uploaded'', e_timestamp = ''2024-01-02T09:00:00'',
           e_notes = None\<rparr>],
       seq_documents := 2, seq_document_revisions := 3, seq_events := 3\<rparr>"

section \<open>Lemmas\<close>

subsection \<open>Fresh rowids\<close>

lemma fold_max_ge_init: "s \<le> fold max ids (s::int)"
  by (induction ids arbitrary: s) (auto intro: order_trans[OF max.cobounded2])

lemma fold_max_ge_elem: "x \<in> set ids \<Longrightarrow> x \<le> fold max ids (s::int)"
proof (induction ids arbitrary: s)
  case Nil
  then show ?case by simp
next
  case (Cons a ids)
  show ?case
  proof (cases "x = a")
    case True
    have "a \<le> max a s" by simp
    also have "\<dots> \<le> fold max ids (max a s)" by (rule fold_max_ge_init)
    finally show ?thesis using True by simp
  next
    case False
    with Cons show ?thesis by simp
  qed
qed

lemma new_rowid_pos: "0 < new_rowid seq ids"
  using fold_max_ge_init[of "int seq" ids] by (simp add: new_rowid_def)

lemma new_rowid_gt: "x \<in> set ids \<Longrightarrow> x < new_rowid seq ids"
  using fold_max_ge_elem[of x ids "int seq"] by (simp add: new_rowid_def)

lemma new_rowid_fresh: "new_rowid seq ids \<notin> set ids"
  using new_rowid_gt[of "new_rowid seq ids" ids seq] by auto

subsection \<open>What a statement that succeeds has done\<close>

lemma insert_transmittal_document_Inr:
  assumes "insert_transmittal_document c t r db = Inr db'"
  shows "\<lparr>l_transmittal_id = t, l_revision_id = r\<rparr> \<notin> set (transmittal_documents db)"
    and "db' = db\<lparr>transmittal_documents := transmittal_documents db @
                   [\<lparr>l_transmittal_id = t, l_revision_id = r\<rparr>]\<rparr>"
  using assms by (auto simp: insert_transmittal_document_def split: if_splits)

lemma insert_event_Inr:
  assumes "insert_event c d r u ty now nt db = Inr (i, db')"
  shows "i = new_rowid (seq_events db) (map e_id (events db))"
    and "db' = db\<lparr>events := events db @
                   [\<lparr>e_id = i, e_document_id = d, e_revision_id = r, e_user_id = u,
                     e_event_type = ty, e_timestamp = now, e_notes = nt\<rparr>],
                 seq_events := nat i\<rparr>"
  using assms by (auto simp: insert_event_def Let_def split: if_splits)

lemma insert_document_Inr:
  assumes "insert_document c dn ti ty st og pr now db = Inr (i, db')"
  shows "i = new_rowid (seq_documents db) (map d_id (documents db))"
    and "db' = db\<lparr>documents := documents db @
                   [\<lparr>d_id = i, d_doc_number = dn, d_title = ti, d_doc_type = ty,
                     d_status = st, d_org_id = og, d_project_id = pr,
                     d_current_revision_id = None, d_created_at = now\<rparr>],
                 seq_documents := nat i\<rparr>"
    and "\<not> (\<exists>d \<in> set (documents db).
              d_doc_number d = dn \<and> d_org_id d = og \<and> d_project_id d = pr)"
  using assms by (auto simp: insert_document_def Let_def split: if_splits)

lemma insert_document_revision_Inr:
  assumes "insert_document_revision c d l f u now db = Inr (i, db')"
  shows "i = new_rowid (seq_document_revisions db) (map r_id (document_revisions db))"
    and "db' = db\<lparr>document_revisions := document_revisions db @
                   [\<lparr>r_id = i, r_document_id = d, r_revision = l, r_file_path = f,
                     r_uploaded_by = u, r_uploaded_at = now\<rparr>],
                 seq_document_revisions := nat i\<rparr>"
  using assms by (auto simp: insert_document_revision_def Let_def split: if_splits)

lemma insert_transmittal_Inr:
  assumes "insert_transmittal c tn de so re cb now db = Inr (i, db')"
  shows "i = new_rowid (seq_transmittals db) (map t_id (transmittals db))"
    and "db' = db\<lparr>transmittals := transmittals db @
                   [\<lparr>t_id = i, t_transmittal_number = tn, t_description = Some de,
                     t_sender_org_id = so, t_recipient_org_id = re, t_created_by = cb,
                     t_created_at = now\<rparr>],
                 seq_transmittals := nat i\<rparr>"
  using assms by (auto simp: insert_transmittal_def Let_def split: if_splits)

subsection \<open>The current-revision invariant through the statements\<close>

lemma latest_cong:
  "document_revisions db' = document_revisions db \<Longrightarrow> latest_revision_id db' = latest_revision_id db"
  by (simp add: latest_revision_id_def fun_eq_iff)

lemma latest_append:
  "document_revisions db' = document_revisions db @ [r] \<Longrightarrow>
   latest_revision_id db' x = (if r_document_id r = x then Some (r_id r) else latest_revision_id db x)"
  by (simp add: latest_revision_id_def)

lemma insert_event_docs:
  "insert_event c d r u t n nt db = Inr (i, db') \<Longrightarrow>
     documents db' = documents db \<and> document_revisions db' = document_revisions db"
  by (auto simp: insert_event_def Let_def split: if_splits)

lemma insert_link_docs:
  "insert_transmittal_document c t r db = Inr db' \<Longrightarrow>
     documents db' = documents db \<and> document_revisions db' = document_revisions db"
  by (auto simp: insert_transmittal_document_def split: if_splits)

lemma insert_transmittal_docs:
  "insert_transmittal c tn de s r cb n db = Inr (i, db') \<Longrightarrow>
     documents db' = documents db \<and> document_revisions db' = document_revisions db"
  by (auto simp: insert_transmittal_def Let_def split: if_splits)

lemma insert_document_docs:
  "insert_document c dn ti ty st og pr n db = Inr (i, db') \<Longrightarrow>
     (\<exists>d. documents db' = documents db @ [d] \<and> d_id d = i) \<and> document_revisions db' = document_revisions db"
  by (auto simp: insert_document_def Let_def split: if_splits)

lemma insert_revision_docs:
  "insert_document_revision c x l f u n db = Inr (i, db') \<Longrightarrow>
     (\<exists>r. document_revisions db' = document_revisions db @ [r] \<and> r_id r = i \<and> r_document_id r = x) \<and> documents db' = documents db"
  by (auto simp: insert_document_revision_def Let_def split: if_splits)

lemma ok_imp_except: "current_revision_ok db \<Longrightarrow> current_revision_ok_except x db"
  by (simp add: current_revision_ok_def current_revision_ok_except_def)

lemma ok_cong:
  "documents db' = documents db \<Longrightarrow> document_revisions db' = document_revisions db \<Longrightarrow>
   current_revision_ok db' = current_revision_ok db"
  using latest_cong[of db' db] by (simp add: current_revision_ok_def)

lemma insert_document_except:
  assumes "insert_document c dn ti ty st og pr n db = Inr (i, db')" "current_revision_ok db"
  shows "current_revision_ok_except i db'"
proof -
  from insert_document_docs[OF assms(1)] obtain d where
    d: "documents db' = documents db @ [d]" "d_id d = i" and r: "document_revisions db' = document_revisions db"
    by blast
  show ?thesis using assms(2) d
    by (auto simp: current_revision_ok_def current_revision_ok_except_def latest_cong[OF r])
qed

lemma insert_revision_update_ok:
  assumes "insert_document_revision c x l f u n db = Inr (i, db')" "current_revision_ok_except x db"
  shows "current_revision_ok (update_current_revision i x db')"
proof -
  from insert_revision_docs[OF assms(1)] obtain r where
    r: "document_revisions db' = document_revisions db @ [r]" "r_id r = i" "r_document_id r = x"
    and d: "documents db' = documents db"
    by blast
  have u: "document_revisions (update_current_revision i x db') = document_revisions db @ [r]"
    by (simp add: update_current_revision_def r)
  have v: "documents (update_current_revision i x db') =
      map (set_current_revision i x) (documents db)"
    by (simp add: update_current_revision_def d)
  show ?thesis
    unfolding current_revision_ok_def v
  proof
    fix d assume "d \<in> set (map (set_current_revision i x) (documents db))"
    then obtain d0 where d0: "d0 \<in> set (documents db)"
      and dd: "d = (if d_id d0 = x then d0\<lparr>d_current_revision_id := Some i\<rparr> else d0)"
      by (auto simp: set_current_revision_def)
    show "d_current_revision_id d = latest_revision_id (update_current_revision i x db') (d_id d)"
    proof (cases "d_id d0 = x")
      case True
      then show ?thesis by (simp add: dd latest_append[OF u] r)
    next
      case False
      with assms(2) d0 have "d_current_revision_id d0 = latest_revision_id db (d_id d0)"
        by (simp add: current_revision_ok_except_def)
      with False show ?thesis by (simp add: dd latest_append[OF u] r)
    qed
  qed
qed

lemma transmit_revision_cases:
  assumes "transmit_revision c tn recip cb now tid r db = Inr db'"
  obtains
    (new_document) db1 src ev db2 row new_doc_id db3 new_rev_id db4 where
      "insert_transmittal_document c tid r db = Inr db1"
      "get_revision db1 r = Some src"
      "insert_event c (r_document_id src) (Some r) cb ''Sent'' now
         (Some (sent_note tn recip)) db1 = Inr (ev, db2)"
      "get_document db2 (r_document_id src) = Some row"
      "select_document_id db2 (d_doc_number row) recip (d_project_id row) = None"
      "insert_document c (d_doc_number row) (d_title row) (d_doc_type row) (d_status row)
         recip (d_project_id row) now db2 = Inr (new_doc_id, db3)"
      "get_revision db3 r = Some src"
      "insert_document_revision c new_doc_id (r_revision src) (r_file_path src) cb now db3
         = Inr (new_rev_id, db4)"
      "db' = update_current_revision new_rev_id new_doc_id db4"
  | (existing_document) db1 src ev db2 row existing_doc_id new_rev_id db3 where
      "insert_transmittal_document c tid r db = Inr db1"
      "get_revision db1 r = Some src"
      "insert_event c (r_document_id src) (Some r) cb ''Sent'' now
         (Some (sent_note tn recip)) db1 = Inr (ev, db2)"
      "get_document db2 (r_document_id src) = Some row"
      "select_document_id db2 (d_doc_number row) recip (d_project_id row) = Some existing_doc_id"
      "get_revision db2 r = Some src"
      "insert_document_revision c existing_doc_id (r_revision src) (r_file_path src) cb now db2
         = Inr (new_rev_id, db3)"
      "db' = update_current_revision new_rev_id existing_doc_id db3"
proof -
  from assms obtain db1 where 1: "insert_transmittal_document c tid r db = Inr db1"
    by (auto simp: transmit_revision_def split: sum.splits)
  from assms 1 obtain src where 2: "get_revision db1 r = Some src"
    by (auto simp: transmit_revision_def split: option.splits)
  from assms 1 2 obtain ev db2 where 3: "insert_event c (r_document_id src) (Some r) cb ''Sent'' now
         (Some (sent_note tn recip)) db1 = Inr (ev, db2)"
    by (auto simp: transmit_revision_def split: sum.splits)
  from assms 1 2 3 obtain row where 4: "get_document db2 (r_document_id src) = Some row"
    by (auto simp: transmit_revision_def split: option.splits)
  have r2: "get_revision db2 r = Some src"
    using 2 3 by (auto simp: insert_event_def get_revision_def Let_def split: if_splits)
  show ?thesis
  proof (cases "select_document_id db2 (d_doc_number row) recip (d_project_id row)")
    case None
    from assms 1 2 3 4 None obtain new_doc_id db3 where 5:
      "insert_document c (d_doc_number row) (d_title row) (d_doc_type row) (d_status row)
         recip (d_project_id row) now db2 = Inr (new_doc_id, db3)"
      by (auto simp: transmit_revision_def split: sum.splits)
    have r3: "get_revision db3 r = Some src"
      using r2 5 by (auto simp: insert_document_def get_revision_def Let_def split: if_splits)
    from assms 1 2 3 4 None 5 r3 obtain new_rev_id db4 where 6:
      "insert_document_revision c new_doc_id (r_revision src) (r_file_path src) cb now db3
         = Inr (new_rev_id, db4)"
      by (auto simp: transmit_revision_def split: sum.splits)
    from assms 1 2 3 4 None 5 r3 6 have "db' = update_current_revision new_rev_id new_doc_id db4"
      by (simp add: transmit_revision_def)
    with 1 2 3 4 None 5 r3 6 show ?thesis by (rule new_document)
  next
    case (Some existing_doc_id)
    from assms 1 2 3 4 Some r2 obtain new_rev_id db3 where 6:
      "insert_document_revision c existing_doc_id (r_revision src) (r_file_path src) cb now db2
         = Inr (new_rev_id, db3)"
      by (auto simp: transmit_revision_def split: sum.splits)
    from assms 1 2 3 4 Some r2 6 have "db' = update_current_revision new_rev_id existing_doc_id db3"
      by (simp add: transmit_revision_def)
    with 1 2 3 4 Some r2 6 show ?thesis by (rule existing_document)
  qed
qed

lemma transmit_revision_ok:
  assumes "transmit_revision c tn recip cb now tid r db = Inr db'" "current_revision_ok db"
  shows "current_revision_ok db'"
  using assms(1)
proof (cases rule: transmit_revision_cases)
  case (new_document db1 src ev db2 row new_doc_id db3 new_rev_id db4)
  have "current_revision_ok db1"
    using insert_link_docs[OF new_document(1)] assms(2) ok_cong by blast
  then have "current_revision_ok db2"
    using insert_event_docs[OF new_document(3)] ok_cong by blast
  then have "current_revision_ok_except new_doc_id db3"
    using new_document(6) by (rule insert_document_except[rotated])
  then show ?thesis
    unfolding new_document(9) using new_document(8) by (rule insert_revision_update_ok[rotated])
next
  case (existing_document db1 src ev db2 row existing_doc_id new_rev_id db3)
  have "current_revision_ok db1"
    using insert_link_docs[OF existing_document(1)] assms(2) ok_cong by blast
  then have "current_revision_ok db2"
    using insert_event_docs[OF existing_document(3)] ok_cong by blast
  then have "current_revision_ok_except existing_doc_id db2"
    by (rule ok_imp_except)
  then show ?thesis
    unfolding existing_document(8) using existing_document(7) by (rule insert_revision_update_ok[rotated])
qed

lemma transmit_revisions_ok:
  "transmit_revisions c tn recip cb now tid ids db = Inr db' \<Longrightarrow> current_revision_ok db
   \<Longrightarrow> current_revision_ok db'"
proof (induction ids arbitrary: db)
  case Nil
  then show ?case by simp
next
  case (Cons r ids)
  from Cons.prems(1) obtain db1 where
    1: "transmit_revision c tn recip cb now tid r db = Inr db1"
    and 2: "transmit_revisions c tn recip cb now tid ids db1 = Inr db'"
    by (auto split: sum.splits)
  from transmit_revision_ok[OF 1 Cons.prems(2)] Cons.IH[OF 2] show ?case by blast
qed

lemma create_document_statements_ok:
  assumes "create_document_statements c dn ti ty st og pr rl fp ub now db = Inr (i, db')"
    and "current_revision_ok db"
  shows "current_revision_ok db'"
proof -
  from assms(1) obtain db1 where 1:
    "insert_document c dn ti (Some ty) (Some st) og pr now db = Inr (i, db1)"
    by (auto simp: create_document_statements_def split: sum.splits)
  from assms(1) 1 obtain rev_id db2 where 2:
    "insert_document_revision c i rl fp ub now db1 = Inr (rev_id, db2)"
    by (auto simp: create_document_statements_def split: sum.splits)
  from assms(1) 1 2 obtain ev where 3:
    "insert_event c i (Some rev_id) ub ''Uploaded'' now None
       (update_current_revision rev_id i db2) = Inr (ev, db')"
    by (auto simp: create_document_statements_def split: sum.splits)
  have "current_revision_ok_except i db1"
    using 1 assms(2) by (rule insert_document_except)
  with 2 have "current_revision_ok (update_current_revision rev_id i db2)"
    by (rule insert_revision_update_ok)
  with insert_event_docs[OF 3] ok_cong show ?thesis by blast
qed

lemma add_document_revision_statements_ok:
  assumes "add_document_revision_statements c di rl fp ub now db = Inr (i, db')"
    and "current_revision_ok db"
  shows "current_revision_ok db'"
proof -
  from assms(1) obtain db1 where 1:
    "insert_document_revision c di rl fp ub now db = Inr (i, db1)"
    by (auto simp: add_document_revision_statements_def split: sum.splits)
  from assms(1) 1 obtain ev where 2:
    "insert_event c di (Some i) ub ''RevisionUploaded'' now None
       (update_current_revision i di db1) = Inr (ev, db')"
    by (auto simp: add_document_revision_statements_def split: sum.splits)
  have "current_revision_ok (update_current_revision i di db1)"
    using 1 ok_imp_except[OF assms(2)] by (rule insert_revision_update_ok)
  with insert_event_docs[OF 2] ok_cong show ?thesis by blast
qed

lemma create_transmittal_statements_ok:
  assumes "create_transmittal_statements c tn de so re ids cb now db = Inr (i, db')"
    and "current_revision_ok db"
  shows "current_revision_ok db'"
proof -
  from assms(1) obtain db1 where 1:
    "insert_transmittal c tn de so re cb now db = Inr (i, db1)"
    by (auto simp: create_transmittal_statements_def split: sum.splits)
  from assms(1) 1 have 2: "transmit_revisions c tn re cb now i ids db1 = Inr db'"
    by (auto simp: create_transmittal_statements_def split: sum.splits)
  have "current_revision_ok db1"
    using insert_transmittal_docs[OF 1] assms(2) ok_cong by blast
  with 2 show ?thesis by (rule transmit_revisions_ok)
qed

subsection \<open>One pass of the loop of \<^verbatim>\<open>create_transmittal\<close>\<close>

lemma transmit_revision_effect:
  assumes "transmit_revision c tn recip cb now tid r db = Inr db'"
  obtains src row target extra where
    "get_revision db r = Some src"
    "get_document db (r_document_id src) = Some row"
    "\<lparr>l_transmittal_id = tid, l_revision_id = r\<rparr> \<notin> set (transmittal_documents db)"
    "transmittal_documents db' =
       transmittal_documents db @ [\<lparr>l_transmittal_id = tid, l_revision_id = r\<rparr>]"
    "events db' = events db @
       [sent_event (new_rowid (seq_events db) (map e_id (events db))) (r_document_id src) r cb
          now (sent_note tn recip)]"
    "document_revisions db' = document_revisions db @
       [replica_revision src
          (new_rowid (seq_document_revisions db) (map r_id (document_revisions db)))
          target cb now]"
    "documents db' =
       map (set_current_revision
              (new_rowid (seq_document_revisions db) (map r_id (document_revisions db))) target)
         (documents db @ extra)"
    "case select_document_id db (d_doc_number row) recip (d_project_id row) of
       None \<Rightarrow> target = new_rowid (seq_documents db) (map d_id (documents db)) \<and>
               extra = [replica_document row target recip now]
     | Some i \<Rightarrow> target = i \<and> extra = []"
    "transmittals db' = transmittals db"
    "projects db' = projects db"
    "users db' = users db"
    "organizations db' = organizations db"
    "seq_transmittals db' = seq_transmittals db"
    "seq_document_revisions db' =
       nat (new_rowid (seq_document_revisions db) (map r_id (document_revisions db)))"
  using assms
proof (cases rule: transmit_revision_cases)
  case (new_document db1 src ev db2 row new_doc_id db3 new_rev_id db4)
  note l = insert_transmittal_document_Inr[OF new_document(1)]
  note e = insert_event_Inr[OF new_document(3)]
  note d = insert_document_Inr[OF new_document(6)]
  note v = insert_document_revision_Inr[OF new_document(8)]
  have a: "get_revision db r = Some src"
    using new_document(2) by (simp add: l(2) get_revision_def)
  have b: "get_document db (r_document_id src) = Some row"
    using new_document(4) by (simp add: l(2) e(2) get_document_def)
  have s: "select_document_id db (d_doc_number row) recip (d_project_id row) = None"
    using new_document(5) by (simp add: l(2) e(2) select_document_id_def)
  show ?thesis
  proof (rule that[of src row new_doc_id "[replica_document row new_doc_id recip now]"])
    show "get_revision db r = Some src" by (rule a)
    show "get_document db (r_document_id src) = Some row" by (rule b)
    show "\<lparr>l_transmittal_id = tid, l_revision_id = r\<rparr> \<notin> set (transmittal_documents db)"
      by (rule l(1))
    show "transmittal_documents db' =
       transmittal_documents db @ [\<lparr>l_transmittal_id = tid, l_revision_id = r\<rparr>]"
      by (simp add: new_document(9) update_current_revision_def v(2) d(2) e(2) l(2))
    show "events db' = events db @
       [sent_event (new_rowid (seq_events db) (map e_id (events db))) (r_document_id src) r cb
          now (sent_note tn recip)]"
      using e(1) by (simp add: new_document(9) update_current_revision_def v(2) d(2) e(2) l(2) sent_event_def)
    show "document_revisions db' = document_revisions db @
       [replica_revision src
          (new_rowid (seq_document_revisions db) (map r_id (document_revisions db)))
          new_doc_id cb now]"
      using v(1) by (simp add: new_document(9) update_current_revision_def v(2) d(2) e(2) l(2) replica_revision_def)
    show "documents db' =
       map (set_current_revision
              (new_rowid (seq_document_revisions db) (map r_id (document_revisions db))) new_doc_id)
         (documents db @ [replica_document row new_doc_id recip now])"
      using v(1) by (simp add: new_document(9) update_current_revision_def v(2) d(2) e(2) l(2) replica_document_def)
    show "case select_document_id db (d_doc_number row) recip (d_project_id row) of
       None \<Rightarrow> new_doc_id = new_rowid (seq_documents db) (map d_id (documents db)) \<and>
               [replica_document row new_doc_id recip now] = [replica_document row new_doc_id recip now]
     | Some i \<Rightarrow> new_doc_id = i \<and> [replica_document row new_doc_id recip now] = []"
      using d(1) by (simp add: s e(2) l(2))
    show "transmittals db' = transmittals db"
      by (simp add: new_document(9) update_current_revision_def v(2) d(2) e(2) l(2))
    show "projects db' = projects db"
      by (simp add: new_document(9) update_current_revision_def v(2) d(2) e(2) l(2))
    show "users db' = users db"
      by (simp add: new_document(9) update_current_revision_def v(2) d(2) e(2) l(2))
    show "organizations db' = organizations db"
      by (simp add: new_document(9) update_current_revision_def v(2) d(2) e(2) l(2))
    show "seq_transmittals db' = seq_transmittals db"
      by (simp add: new_document(9) update_current_revision_def v(2) d(2) e(2) l(2))
    show "seq_document_revisions db' =
       nat (new_rowid (seq_document_revisions db) (map r_id (document_revisions db)))"
      using v(1) by (simp add: new_document(9) update_current_revision_def v(2) d(2) e(2) l(2))
  qed
next
  case (existing_document db1 src ev db2 row existing_doc_id new_rev_id db3)
  note l = insert_transmittal_document_Inr[OF existing_document(1)]
  note e = insert_event_Inr[OF existing_document(3)]
  note v = insert_document_revision_Inr[OF existing_document(7)]
  have a: "get_revision db r = Some src"
    using existing_document(2) by (simp add: l(2) get_revision_def)
  have b: "get_document db (r_document_id src) = Some row"
    using existing_document(4) by (simp add: l(2) e(2) get_document_def)
  have s: "select_document_id db (d_doc_number row) recip (d_project_id row) = Some existing_doc_id"
    using existing_document(5) by (simp add: l(2) e(2) select_document_id_def)
  show ?thesis
  proof (rule that[of src row existing_doc_id "[]"])
    show "get_revision db r = Some src" by (rule a)
    show "get_document db (r_document_id src) = Some row" by (rule b)
    show "\<lparr>l_transmittal_id = tid, l_revision_id = r\<rparr> \<notin> set (transmittal_documents db)"
      by (rule l(1))
    show "transmittal_documents db' =
       transmittal_documents db @ [\<lparr>l_transmittal_id = tid, l_revision_id = r\<rparr>]"
      by (simp add: existing_document(8) update_current_revision_def v(2) e(2) l(2))
    show "events db' = events db @
       [sent_event (new_rowid (seq_events db) (map e_id (events db))) (r_document_id src) r cb
          now (sent_note tn recip)]"
      using e(1) by (simp add: existing_document(8) update_current_revision_def v(2) e(2) l(2) sent_event_def)
    show "document_revisions db' = document_revisions db @
       [replica_revision src
          (new_rowid (seq_document_revisions db) (map r_id (document_revisions db)))
          existing_doc_id cb now]"
      using v(1) by (simp add: existing_document(8) update_current_revision_def v(2) e(2) l(2) replica_revision_def)
    show "documents db' =
       map (set_current_revision
              (new_rowid (seq_document_revisions db) (map r_id (document_revisions db))) existing_doc_id)
         (documents db @ [])"
      using v(1) by (simp add: existing_document(8) update_current_revision_def v(2) e(2) l(2))
    show "case select_document_id db (d_doc_number row) recip (d_project_id row) of
       None \<Rightarrow> existing_doc_id = new_rowid (seq_documents db) (map d_id (documents db)) \<and>
               [] = [replica_document row existing_doc_id recip now]
     | Some i \<Rightarrow> existing_doc_id = i \<and> [] = ([]::document list)"
      by (simp add: s)
    show "transmittals db' = transmittals db"
      by (simp add: existing_document(8) update_current_revision_def v(2) e(2) l(2))
    show "projects db' = projects db"
      by (simp add: existing_document(8) update_current_revision_def v(2) e(2) l(2))
    show "users db' = users db"
      by (simp add: existing_document(8) update_current_revision_def v(2) e(2) l(2))
    show "organizations db' = organizations db"
      by (simp add: existing_document(8) update_current_revision_def v(2) e(2) l(2))
    show "seq_transmittals db' = seq_transmittals db"
      by (simp add: existing_document(8) update_current_revision_def v(2) e(2) l(2))
    show "seq_document_revisions db' =
       nat (new_rowid (seq_document_revisions db) (map r_id (document_revisions db)))"
      using v(1) by (simp add: existing_document(8) update_current_revision_def v(2) e(2) l(2))
  qed
qed

subsection \<open>Queries on lists\<close>

lemma find_append:
  "find P (xs @ ys) = (case find P xs of None \<Rightarrow> find P ys | Some x \<Rightarrow> Some x)"
  by (induction xs) auto

lemma find_map: "find P (map f xs) = map_option f (find (\<lambda>x. P (f x)) xs)"
  by (induction xs) auto

lemma find_Some_set: "find P xs = Some x \<Longrightarrow> x \<in> set xs \<and> P x"
  by (induction xs) (auto split: if_splits)

subsection \<open>States that extend one another\<close>

lemma strip_current_fields [simp]:
  "d_id (strip_current d) = d_id d"
  "d_doc_number (strip_current d) = d_doc_number d"
  "d_title (strip_current d) = d_title d"
  "d_doc_type (strip_current d) = d_doc_type d"
  "d_status (strip_current d) = d_status d"
  "d_org_id (strip_current d) = d_org_id d"
  "d_project_id (strip_current d) = d_project_id d"
  by (simp_all add: strip_current_def)

lemma strip_set_current [simp]:
  "strip_current (set_current_revision n x d) = strip_current d"
  by (simp add: strip_current_def set_current_revision_def)

lemma strip_eq_fields:
  assumes "strip_current d' = strip_current d"
  shows "d_id d' = d_id d" "d_doc_number d' = d_doc_number d" "d_title d' = d_title d"
    "d_doc_type d' = d_doc_type d" "d_status d' = d_status d" "d_org_id d' = d_org_id d"
    "d_project_id d' = d_project_id d"
  using arg_cong[OF assms, of d_id] arg_cong[OF assms, of d_doc_number]
    arg_cong[OF assms, of d_title] arg_cong[OF assms, of d_doc_type]
    arg_cong[OF assms, of d_status] arg_cong[OF assms, of d_org_id]
    arg_cong[OF assms, of d_project_id]
  by simp_all

lemma extends_refl: "extends db db"
  by (simp add: extends_def)

lemma extends_trans: "extends a b \<Longrightarrow> extends b c \<Longrightarrow> extends a c"
  unfolding extends_def by (metis prefix_order.trans)

lemma transmit_revision_extends:
  assumes "transmit_revision c tn recip cb now tid r db = Inr db'"
  shows "extends db db'"
  using assms
proof (cases rule: transmit_revision_effect)
  case (1 src row target extra)
  show ?thesis
    unfolding extends_def
    by (simp add: 1(4,5,6,7,9,10,11,12) o_def)
qed

lemma transmit_revisions_extends:
  "transmit_revisions c tn recip cb now tid ids db = Inr db' \<Longrightarrow> extends db db'"
proof (induction ids arbitrary: db)
  case Nil
  then show ?case by (simp add: extends_refl)
next
  case (Cons r ids)
  from Cons.prems obtain db1 where
    1: "transmit_revision c tn recip cb now tid r db = Inr db1"
    and 2: "transmit_revisions c tn recip cb now tid ids db1 = Inr db'"
    by (auto split: sum.splits)
  from transmit_revision_extends[OF 1] Cons.IH[OF 2] show ?case by (rule extends_trans)
qed

lemma extends_get_revision:
  assumes "extends db db'" "get_revision db x = Some v"
  shows "get_revision db' x = Some v"
proof -
  from assms(1) obtain zs where "document_revisions db' = document_revisions db @ zs"
    by (auto simp: extends_def prefix_def)
  with assms(2) show ?thesis by (simp add: get_revision_def find_append)
qed

lemma extends_get_document:
  assumes "extends db db'" "get_document db x = Some d"
  shows "\<exists>d'. get_document db' x = Some d' \<and> strip_current d' = strip_current d"
proof -
  from assms(1) obtain zs where
    z: "map strip_current (documents db') = map strip_current (documents db) @ zs"
    by (auto simp: extends_def prefix_def)
  have "find (\<lambda>d. d_id d = x) (map strip_current (documents db')) =
        map_option strip_current (get_document db' x)"
    by (simp add: find_map get_document_def)
  moreover have "find (\<lambda>d. d_id d = x) (map strip_current (documents db)) =
        Some (strip_current d)"
    using assms(2) by (simp add: find_map get_document_def)
  ultimately have "map_option strip_current (get_document db' x) = Some (strip_current d)"
    by (simp add: z find_append)
  then show ?thesis by auto
qed

lemma extends_document_mem:
  assumes "extends db db'" "d \<in> set (documents db)"
  shows "\<exists>d' \<in> set (documents db'). strip_current d' = strip_current d"
proof -
  from assms(1) obtain zs where
    z: "map strip_current (documents db') = map strip_current (documents db) @ zs"
    by (auto simp: extends_def prefix_def)
  from assms(2) have "strip_current d \<in> set (map strip_current (documents db'))"
    unfolding z by simp
  then show ?thesis by auto
qed

lemma extends_mem:
  assumes "extends db db'"
  shows "x \<in> set (document_revisions db) \<Longrightarrow> x \<in> set (document_revisions db')"
    and "y \<in> set (events db) \<Longrightarrow> y \<in> set (events db')"
    and "z \<in> set (transmittal_documents db) \<Longrightarrow> z \<in> set (transmittal_documents db')"
  using assms by (auto simp: extends_def prefix_def)

subsection \<open>What the loop has persisted for each revision\<close>

lemma revision_transmitted_mono:
  assumes t: "revision_transmitted b c tn recip cb tid r"
    and ab: "extends a b" and cd: "extends c d"
  shows "revision_transmitted a d tn recip cb tid r"
proof -
  from t obtain src where src: "get_revision c r = Some src"
    by (auto simp: revision_transmitted_def split: option.splits)
  from t src obtain ev where ev: "ev \<in> set (events c)" "e_id ev \<notin> set (map e_id (events b))"
    "e_document_id ev = r_document_id src" "e_revision_id ev = Some r" "e_user_id ev = cb"
    "e_event_type ev = ''Sent''" "e_notes ev = Some (sent_note tn recip)"
    by (auto simp: revision_transmitted_def)
  from t src obtain rep dd srcdoc where rep: "rep \<in> set (document_revisions c)"
    "r_id rep \<notin> set (map r_id (document_revisions b))"
    "r_revision rep = r_revision src" "r_file_path rep = r_file_path src" "r_uploaded_by rep = cb"
    and dd: "dd \<in> set (documents c)" "d_id dd = r_document_id rep" "d_org_id dd = recip"
    and srcdoc: "get_document c (r_document_id src) = Some srcdoc"
    "d_doc_number dd = d_doc_number srcdoc" "d_project_id dd = d_project_id srcdoc"
    by (auto simp: revision_transmitted_def split: option.splits)
  from extends_document_mem[OF cd dd(1)] obtain dd' where
    dd': "dd' \<in> set (documents d)" "strip_current dd' = strip_current dd" by blast
  from extends_get_document[OF cd srcdoc(1)] obtain srcdoc' where
    srcdoc': "get_document d (r_document_id src) = Some srcdoc'"
    "strip_current srcdoc' = strip_current srcdoc" by blast
  have e1: "e_id ev \<notin> set (map e_id (events a))"
    using ev(2) extends_mem(2)[OF ab] by auto
  have r1: "r_id rep \<notin> set (map r_id (document_revisions a))"
    using rep(2) extends_mem(1)[OF ab] by auto
  have link: "\<lparr>l_transmittal_id = tid, l_revision_id = r\<rparr> \<in> set (transmittal_documents d)"
    using t extends_mem(3)[OF cd] by (simp add: revision_transmitted_def)
  have evd: "\<exists>ev \<in> set (events d).
              e_id ev \<notin> set (map e_id (events a)) \<and>
              e_document_id ev = r_document_id src \<and> e_revision_id ev = Some r \<and>
              e_user_id ev = cb \<and> e_event_type ev = ''Sent'' \<and>
              e_notes ev = Some (sent_note tn recip)"
    using extends_mem(2)[OF cd ev(1)] e1 ev(3-7) by blast
  have docd: "\<exists>x \<in> set (documents d).
                 d_id x = r_document_id rep \<and> d_org_id x = recip \<and>
                 d_doc_number x = d_doc_number srcdoc' \<and>
                 d_project_id x = d_project_id srcdoc'"
    using dd'(1) strip_eq_fields[OF dd'(2)] strip_eq_fields[OF srcdoc'(2)] dd(2,3) srcdoc(2,3)
    by auto
  have repd: "\<exists>rep \<in> set (document_revisions d).
              r_id rep \<notin> set (map r_id (document_revisions a)) \<and>
              r_revision rep = r_revision src \<and> r_file_path rep = r_file_path src \<and>
              r_uploaded_by rep = cb \<and>
              (\<exists>x \<in> set (documents d).
                 d_id x = r_document_id rep \<and> d_org_id x = recip \<and>
                 d_doc_number x = d_doc_number srcdoc' \<and>
                 d_project_id x = d_project_id srcdoc')"
    using extends_mem(1)[OF cd rep(1)] r1 rep(3-5) docd by blast
  show ?thesis
    unfolding revision_transmitted_def
    using link evd repd by (simp add: extends_get_revision[OF cd src] srcdoc'(1))
qed

lemma map_set_current_find_id:
  "find (\<lambda>d. d_id d = x) (map (set_current_revision n t) xs) =
     map_option (set_current_revision n t) (find (\<lambda>d. d_id d = x) xs)"
  by (induction xs) (auto simp: set_current_revision_def)

lemma set_current_fields [simp]:
  "d_id (set_current_revision n t d) = d_id d"
  "d_doc_number (set_current_revision n t d) = d_doc_number d"
  "d_title (set_current_revision n t d) = d_title d"
  "d_doc_type (set_current_revision n t d) = d_doc_type d"
  "d_status (set_current_revision n t d) = d_status d"
  "d_org_id (set_current_revision n t d) = d_org_id d"
  "d_project_id (set_current_revision n t d) = d_project_id d"
  by (simp_all add: set_current_revision_def)

lemma select_document_id_Some:
  assumes "select_document_id db dn og pr = Some i"
  shows "\<exists>d \<in> set (documents db). d_id d = i \<and> d_doc_number d = dn \<and> d_org_id d = og \<and>
           d_project_id d = pr"
proof -
  from assms obtain d where
    d: "find (\<lambda>d. d_doc_number d = dn \<and> d_org_id d = og \<and> d_project_id d = pr) (documents db)
          = Some d" and i: "d_id d = i"
    unfolding select_document_id_def by blast
  from find_Some_set[OF d] i show ?thesis by blast
qed

lemma transmit_revision_transmitted:
  assumes "transmit_revision c tn recip cb now tid r db = Inr db'"
  shows "revision_transmitted db db' tn recip cb tid r"
  using assms
proof (cases rule: transmit_revision_effect)
  case (1 src row target extra)
  let ?n = "new_rowid (seq_document_revisions db) (map r_id (document_revisions db))"
  have gr: "get_revision db' r = Some src"
    using 1(1) by (simp add: get_revision_def 1(6) find_append)
  have gd: "get_document db' (r_document_id src) = Some (set_current_revision ?n target row)"
    using 1(2) by (simp add: get_document_def 1(7) map_set_current_find_id find_append)
  have ev: "\<exists>ev \<in> set (events db').
              e_id ev \<notin> set (map e_id (events db)) \<and>
              e_document_id ev = r_document_id src \<and> e_revision_id ev = Some r \<and>
              e_user_id ev = cb \<and> e_event_type ev = ''Sent'' \<and>
              e_notes ev = Some (sent_note tn recip)"
    using new_rowid_fresh[of "seq_events db" "map e_id (events db)"]
    by (simp add: 1(5) sent_event_def)
  have "\<exists>d \<in> set (documents db @ extra). d_id d = target \<and> d_org_id d = recip \<and>
          d_doc_number d = d_doc_number row \<and> d_project_id d = d_project_id row"
  proof (cases "select_document_id db (d_doc_number row) recip (d_project_id row)")
    case None
    with 1(8) have "extra = [replica_document row target recip now]" by simp
    then show ?thesis by (simp add: replica_document_def)
  next
    case (Some i)
    with 1(8) have "target = i" by simp
    with select_document_id_Some[OF Some] show ?thesis by auto
  qed
  then obtain d0 where d0: "d0 \<in> set (documents db @ extra)" "d_id d0 = target"
    "d_org_id d0 = recip" "d_doc_number d0 = d_doc_number row" "d_project_id d0 = d_project_id row"
    by blast
  have "set_current_revision ?n target d0 \<in> set (documents db')"
    using d0(1) unfolding 1(7) by (metis image_eqI set_map)
  then have doc: "\<exists>d \<in> set (documents db'). d_id d = target \<and> d_org_id d = recip \<and>
       d_doc_number d = d_doc_number (set_current_revision ?n target row) \<and>
       d_project_id d = d_project_id (set_current_revision ?n target row)"
    using d0(2-5) by (intro bexI[of _ "set_current_revision ?n target d0"]) simp_all
  have rep: "\<exists>rep \<in> set (document_revisions db').
              r_id rep \<notin> set (map r_id (document_revisions db)) \<and>
              r_revision rep = r_revision src \<and> r_file_path rep = r_file_path src \<and>
              r_uploaded_by rep = cb \<and>
              (\<exists>d \<in> set (documents db'). d_id d = r_document_id rep \<and> d_org_id d = recip \<and>
                 d_doc_number d = d_doc_number (set_current_revision ?n target row) \<and>
                 d_project_id d = d_project_id (set_current_revision ?n target row))"
    using new_rowid_fresh[of "seq_document_revisions db" "map r_id (document_revisions db)"] doc
    by (simp add: 1(6) replica_revision_def)
  show ?thesis
    unfolding revision_transmitted_def
    using ev rep by (simp add: gr gd 1(4))
qed

lemma transmit_revisions_transmitted:
  "transmit_revisions c tn recip cb now tid ids db = Inr db' \<Longrightarrow>
   \<forall>r \<in> set ids. revision_transmitted db db' tn recip cb tid r"
proof (induction ids arbitrary: db)
  case Nil
  then show ?case by simp
next
  case (Cons r ids)
  from Cons.prems obtain db1 where
    1: "transmit_revision c tn recip cb now tid r db = Inr db1"
    and 2: "transmit_revisions c tn recip cb now tid ids db1 = Inr db'"
    by (auto split: sum.splits)
  note e1 = transmit_revision_extends[OF 1]
  note e2 = transmit_revisions_extends[OF 2]
  have "revision_transmitted db db' tn recip cb tid r"
    using transmit_revision_transmitted[OF 1] extends_refl e2 by (rule revision_transmitted_mono)
  moreover have "\<forall>x \<in> set ids. revision_transmitted db db' tn recip cb tid x"
    using Cons.IH[OF 2] e1 extends_refl by (blast intro: revision_transmitted_mono)
  ultimately show ?case by simp
qed

lemma revision_transmitted_base:
  "events a = events b \<Longrightarrow> document_revisions a = document_revisions b \<Longrightarrow>
   revision_transmitted a c tn recip cb tid r = revision_transmitted b c tn recip cb tid r"
  by (simp add: revision_transmitted_def split: option.split)

subsection \<open>Sends that raise\<close>

lemma transmit_revision_linked:
  assumes "\<lparr>l_transmittal_id = tid, l_revision_id = r\<rparr> \<in> set (transmittal_documents db)"
  shows "transmit_revision c tn recip cb now tid r db = Inl IntegrityError"
  using assms by (simp add: transmit_revision_def insert_transmittal_document_def)

lemma transmit_revisions_not_linked:
  "transmit_revisions c tn recip cb now tid ids db = Inr db' \<Longrightarrow>
   \<lparr>l_transmittal_id = tid, l_revision_id = r\<rparr> \<in> set (transmittal_documents db) \<Longrightarrow>
   r \<notin> set ids"
proof (induction ids arbitrary: db)
  case Nil
  then show ?case by simp
next
  case (Cons x ids)
  from Cons.prems(1) obtain db1 where
    1: "transmit_revision c tn recip cb now tid x db = Inr db1"
    and 2: "transmit_revisions c tn recip cb now tid ids db1 = Inr db'"
    by (auto split: sum.splits)
  have "x \<noteq> r"
    using 1 transmit_revision_linked[OF Cons.prems(2), of c tn recip cb now] by auto
  moreover have "\<lparr>l_transmittal_id = tid, l_revision_id = r\<rparr> \<in> set (transmittal_documents db1)"
    using extends_mem(3)[OF transmit_revision_extends[OF 1] Cons.prems(2)] .
  ultimately show ?case using Cons.IH[OF 2] by simp
qed

lemma transmit_revisions_distinct:
  "transmit_revisions c tn recip cb now tid ids db = Inr db' \<Longrightarrow> distinct ids"
proof (induction ids arbitrary: db)
  case Nil
  then show ?case by simp
next
  case (Cons x ids)
  from Cons.prems(1) obtain db1 where
    1: "transmit_revision c tn recip cb now tid x db = Inr db1"
    and 2: "transmit_revisions c tn recip cb now tid ids db1 = Inr db'"
    by (auto split: sum.splits)
  have "\<lparr>l_transmittal_id = tid, l_revision_id = x\<rparr> \<in> set (transmittal_documents db1)"
    using transmit_revision_transmitted[OF 1] by (simp add: revision_transmitted_def)
  with 2 have "x \<notin> set ids" by (rule transmit_revisions_not_linked)
  with Cons.IH[OF 2] show ?case by simp
qed

lemma create_transmittal_Inl: 
  "fst (create_transmittal tn de so re ids cb now db) = Inl e \<Longrightarrow>
   create_transmittal tn de so re ids cb now db = (Inl e, db)"
  by (auto simp: create_transmittal_def split: sum.splits)

lemma create_transmittal_loop:
  assumes "create_transmittal tn de so re ids cb now db = (Inr tid, db')"
  obtains db1 where
    "insert_transmittal get_conn tn de so re cb now db = Inr (tid, db1)"
    "transmit_revisions get_conn tn re cb now tid ids db1 = Inr db'"
proof -
  from assms have s: "create_transmittal_statements get_conn tn de so re ids cb now db = Inr (tid, db')"
    by (auto simp: create_transmittal_def split: sum.splits)
  then obtain db1 where 1: "insert_transmittal get_conn tn de so re cb now db = Inr (tid, db1)"
    by (auto simp: create_transmittal_statements_def split: sum.splits)
  with s have "transmit_revisions get_conn tn re cb now tid ids db1 = Inr db'"
    by (auto simp: create_transmittal_statements_def split: sum.splits)
  with 1 show ?thesis by (rule that)
qed

lemma create_transmittal_fails:
  assumes "\<And>tid db'. create_transmittal tn de so re ids cb now db \<noteq> (Inr tid, db')"
  shows "\<exists>e. create_transmittal tn de so re ids cb now db = (Inl e, db)"
proof (cases "fst (create_transmittal tn de so re ids cb now db)")
  case (Inl e)
  then show ?thesis using create_transmittal_Inl by blast
next
  case (Inr tid)
  then have "create_transmittal tn de so re ids cb now db =
      (Inr tid, snd (create_transmittal tn de so re ids cb now db))"
    by (metis prod.collapse)
  with assms show ?thesis by blast
qed

lemma transmit_revisions_append:
  "transmit_revisions c tn recip cb now tid (xs @ ys) db =
     (case transmit_revisions c tn recip cb now tid xs db of
        Inl e \<Rightarrow> Inl e
      | Inr db1 \<Rightarrow> transmit_revisions c tn recip cb now tid ys db1)"
  by (induction xs arbitrary: db) (auto split: sum.splits)

lemma create_transmittal_second_link:
  assumes "create_transmittal tn de so re xs cb now db = (Inr tid, db')" and "r \<in> set xs"
  shows "create_transmittal tn de so re (xs @ r # ys) cb now db = (Inl IntegrityError, db)"
proof -
  from assms(1) obtain db1 where 1: "insert_transmittal get_conn tn de so re cb now db = Inr (tid, db1)"
    and 2: "transmit_revisions get_conn tn re cb now tid xs db1 = Inr db'"
    by (rule create_transmittal_loop)
  from transmit_revisions_transmitted[OF 2] assms(2)
  have "\<lparr>l_transmittal_id = tid, l_revision_id = r\<rparr> \<in> set (transmittal_documents db')"
    by (simp add: revision_transmitted_def)
  then have "transmit_revision get_conn tn re cb now tid r db' = Inl IntegrityError"
    by (rule transmit_revision_linked)
  then have "transmit_revisions get_conn tn re cb now tid (xs @ r # ys) db1 = Inl IntegrityError"
    by (simp add: transmit_revisions_append 2)
  then show ?thesis
    by (simp add: create_transmittal_def create_transmittal_statements_def 1)
qed

lemma fold_max_bounded: "\<forall>x \<in> set ids. x \<le> s \<Longrightarrow> fold max ids (s::int) = s"
  by (induction ids arbitrary: s) (auto simp: max_def)

lemma new_rowid_next:
  "new_rowid (nat (new_rowid seq ids)) (ids @ [new_rowid seq ids]) = new_rowid seq ids + 1"
proof -
  let ?n = "new_rowid seq ids"
  have p: "0 < ?n" by (rule new_rowid_pos)
  have "\<forall>x \<in> set ids. x \<le> ?n" using new_rowid_gt[of _ ids seq] by (simp add: less_imp_le)
  then have "fold max ids ?n = ?n" by (rule fold_max_bounded)
  then show ?thesis using p by (simp add: new_rowid_def[of "nat ?n"])
qed

lemma transmit_revisions_resolves:
  "transmit_revisions c tn recip cb now tid ids db = Inr db' \<Longrightarrow> j < length ids \<Longrightarrow>
   resolves_at db ids j"
proof (induction ids arbitrary: db j)
  case Nil
  then show ?case by simp
next
  case (Cons x ids)
  from Cons.prems(1) obtain db1 where
    1: "transmit_revision c tn recip cb now tid x db = Inr db1"
    and 2: "transmit_revisions c tn recip cb now tid ids db1 = Inr db'"
    by (auto split: sum.splits)
  let ?n = "new_rowid (seq_document_revisions db) (map r_id (document_revisions db))"
  from 1 show ?case
  proof (cases rule: transmit_revision_effect)
    case (1 src row target extra)
    have n1: "new_rowid (seq_document_revisions db1) (map r_id (document_revisions db1)) = ?n + 1"
      by (simp add: 1(6,14) replica_revision_def new_rowid_next)
    show ?thesis
    proof (cases j)
      case 0
      then show ?thesis using 1(1) by (simp add: resolves_at_def)
    next
      case (Suc k)
      with Cons.prems(2) have k: "k < length ids" by simp
      from Cons.IH[OF 2 k] have r: "resolves_at db1 ids k" .
      show ?thesis
      proof (cases "get_revision db (ids ! k)")
        case (Some v)
        then show ?thesis by (simp add: resolves_at_def Suc)
      next
        case None
        show ?thesis
        proof (cases "get_revision db1 (ids ! k)")
          case (Some v)
          with None have "ids ! k = ?n"
            by (auto simp: get_revision_def 1(6) find_append replica_revision_def split: if_splits)
          then show ?thesis by (simp add: resolves_at_def Suc Let_def)
        next
          case None
          with r have "?n + 1 \<le> ids ! k \<and> ids ! k < ?n + 1 + int k"
            by (simp add: resolves_at_def n1 Let_def)
          then show ?thesis by (simp add: resolves_at_def Suc Let_def)
        qed
      qed
    qed
  qed
qed

subsection \<open>What \<^verbatim>\<open>create_document\<close> and \<^verbatim>\<open>add_document_revision\<close> return\<close>

lemma add_document_revision_returns:
  "add_document_revision document_id revision_label file_path uploaded_by now db =
     (Inr (new_rowid (seq_document_revisions db) (map r_id (document_revisions db))),
      db\<lparr>documents :=
            map (set_current_revision
                   (new_rowid (seq_document_revisions db) (map r_id (document_revisions db)))
                   document_id) (documents db),
          document_revisions := document_revisions db @
            [\<lparr>r_id = new_rowid (seq_document_revisions db) (map r_id (document_revisions db)),
              r_document_id = document_id, r_revision = revision_label,
              r_file_path = file_path, r_uploaded_by = uploaded_by, r_uploaded_at = now\<rparr>],
          events := events db @
            [\<lparr>e_id = new_rowid (seq_events db) (map e_id (events db)),
              e_document_id = document_id,
              e_revision_id =
                Some (new_rowid (seq_document_revisions db) (map r_id (document_revisions db))),
              e_user_id = uploaded_by, e_event_type = ''RevisionUploaded'', e_timestamp = now,
              e_notes = None\<rparr>],
          seq_document_revisions :=
            nat (new_rowid (seq_document_revisions db) (map r_id (document_revisions db))),
          seq_events := nat (new_rowid (seq_events db) (map e_id (events db)))\<rparr>)"
  by (simp add: add_document_revision_def add_document_revision_statements_def
      insert_document_revision_def insert_event_def update_current_revision_def
      get_conn_def connect_def Let_def)

lemma create_document_returns:
  assumes "create_document doc_number title doc_type status org_id project_id revision_label
             file_path uploaded_by now db = (Inr doc_id, db')"
  shows "doc_id = new_rowid (seq_documents db) (map d_id (documents db))"
    and "db' = db\<lparr>documents :=
            map (set_current_revision
                   (new_rowid (seq_document_revisions db) (map r_id (document_revisions db)))
                   doc_id)
              (documents db @
                [\<lparr>d_id = doc_id, d_doc_number = doc_number, d_title = title,
                  d_doc_type = Some doc_type, d_status = Some status, d_org_id = org_id,
                  d_project_id = project_id, d_current_revision_id = None,
                  d_created_at = now\<rparr>]),
          document_revisions := document_revisions db @
            [\<lparr>r_id = new_rowid (seq_document_revisions db) (map r_id (document_revisions db)),
              r_document_id = doc_id, r_revision = revision_label,
              r_file_path = file_path, r_uploaded_by = uploaded_by, r_uploaded_at = now\<rparr>],
          events := events db @
            [\<lparr>e_id = new_rowid (seq_events db) (map e_id (events db)),
              e_document_id = doc_id,
              e_revision_id =
                Some (new_rowid (seq_document_revisions db) (map r_id (document_revisions db))),
              e_user_id = uploaded_by, e_event_type = ''Uploaded'', e_timestamp = now,
              e_notes = None\<rparr>],
          seq_documents := nat doc_id,
          seq_document_revisions :=
            nat (new_rowid (seq_document_revisions db) (map r_id (document_revisions db))),
          seq_events := nat (new_rowid (seq_events db) (map e_id (events db)))\<rparr>"
  using assms
  by (auto simp: create_document_def create_document_statements_def
      insert_document_def insert_document_revision_def insert_event_def
      update_current_revision_def get_conn_def connect_def Let_def split: if_splits)

lemma find_fresh: "k \<notin> set (map f xs) \<Longrightarrow> find (\<lambda>x. f x = k) xs = None"
  by (induction xs) auto

lemma get_revision_new:
  assumes "document_revisions db' = document_revisions db @ [v]"
    and "r_id v = new_rowid (seq_document_revisions db) (map r_id (document_revisions db))"
  shows "get_revision db' (r_id v) = Some v"
proof -
  have "r_id v \<notin> set (map r_id (document_revisions db))"
    unfolding assms(2) by (rule new_rowid_fresh)
  then have "find (\<lambda>r. r_id r = r_id v) (document_revisions db) = None"
    by (rule find_fresh)
  then show ?thesis by (simp add: get_revision_def assms(1) find_append)
qed

lemma get_document_new:
  assumes "documents db' = map (set_current_revision n i) (documents db @ [d])"
    and "d_id d = i" and "i = new_rowid (seq_documents db) (map d_id (documents db))"
  shows "get_document db' i = Some (d\<lparr>d_current_revision_id := Some n\<rparr>)"
proof -
  have "i \<notin> set (map d_id (documents db))"
    unfolding assms(3) by (rule new_rowid_fresh)
  then have "find (\<lambda>d. d_id d = i) (documents db) = None"
    by (rule find_fresh)
  then show ?thesis
    using assms(2)
    by (simp add: get_document_def assms(1) map_set_current_find_id find_append
        set_current_revision_def del: map_append)
qed

lemma label_after_create:
  assumes "create_document doc_number title doc_type status org_id project_id revision_label
             file_path uploaded_by now db = (Inr doc_id, db')"
  shows "get_current_revision_label db' doc_id = Some revision_label"
proof -
  note r = create_document_returns[OF assms]
  let ?n = "new_rowid (seq_document_revisions db) (map r_id (document_revisions db))"
  let ?v = "\<lparr>r_id = ?n, r_document_id = doc_id, r_revision = revision_label,
              r_file_path = file_path, r_uploaded_by = uploaded_by, r_uploaded_at = now\<rparr>"
  have d: "get_document db' doc_id \<noteq> None \<and>
        d_current_revision_id (the (get_document db' doc_id)) = Some ?n"
    using get_document_new[of db' ?n doc_id db _, OF _ _ r(1)]
    by (subst r(2)) (simp add: r(2))
  have "get_revision db' (r_id ?v) = Some ?v"
    by (rule get_revision_new[of db' db]) (simp_all add: r(2))
  then have v: "get_revision db' ?n = Some ?v" by simp
  have "?n \<noteq> 0" using new_rowid_pos[of "seq_document_revisions db" "map r_id (document_revisions db)"] by simp
  with d v show ?thesis
    by (auto simp: get_current_revision_label_def)
qed

lemma uploaded_events_fresh:
  assumes "uploaded_events_ok db"
  shows "filter (\<lambda>e. e_document_id e = new_rowid (seq_documents db) (map d_id (documents db)) \<and>
                      e_event_type e = ''Uploaded'') (events db) = []"
proof -
  have "\<not> (e_document_id e = new_rowid (seq_documents db) (map d_id (documents db)) \<and>
            e_event_type e = ''Uploaded'')" if "e \<in> set (events db)" for e
    using that assms new_rowid_fresh[of "seq_documents db" "map d_id (documents db)"]
    unfolding uploaded_events_ok_def by metis
  then show ?thesis by (simp add: filter_empty_conv)
qed

lemma get_revisions_sorted:
  "sorted_wrt (\<ge>) (map r_uploaded_at (get_revisions_for_document db doc_id))"
  by (simp add: get_revisions_for_document_def rev_map[symmetric] sorted_wrt_rev)

lemma get_revisions_mset:
  "mset (get_revisions_for_document db doc_id) =
     mset (filter (\<lambda>r. r_document_id r = doc_id) (document_revisions db))"
  by (simp add: get_revisions_for_document_def)

lemma add_document_revisions_effect:
  assumes "get_document db doc_id = Some d"
    and "get_current_revision_label db doc_id = Some l"
  shows "\<exists>db'. add_document_revisions doc_id uploads db = Inr db' \<and>
           map r_revision (filter (\<lambda>r. r_document_id r = doc_id) (document_revisions db')) =
             map r_revision (filter (\<lambda>r. r_document_id r = doc_id) (document_revisions db)) @
               map fst uploads \<and>
           get_current_revision_label db' doc_id = Some (last (l # map fst uploads))"
  using assms
proof (induction uploads arbitrary: db d l)
  case Nil
  then show ?case by simp
next
  case (Cons u uploads)
  obtain rl fp ub now where u: "u = (rl, fp, ub, now)" by (cases u)
  let ?n = "new_rowid (seq_document_revisions db) (map r_id (document_revisions db))"
  let ?v = "\<lparr>r_id = ?n, r_document_id = doc_id, r_revision = rl,
              r_file_path = fp, r_uploaded_by = ub, r_uploaded_at = now\<rparr>"
  obtain db1 where a: "add_document_revision doc_id rl fp ub now db = (Inr ?n, db1)"
    and docs: "documents db1 = map (set_current_revision ?n doc_id) (documents db)"
    and revs: "document_revisions db1 = document_revisions db @ [?v]"
    by (simp add: add_document_revision_returns)
  have gd: "get_document db1 doc_id = Some (set_current_revision ?n doc_id d)"
    using Cons.prems(1) by (simp add: get_document_def docs map_set_current_find_id)
  have "d_id d = doc_id"
    using find_Some_set[of "\<lambda>d. d_id d = doc_id" "documents db" d] Cons.prems(1)
    by (simp add: get_document_def)
  then have cur: "d_current_revision_id (set_current_revision ?n doc_id d) = Some ?n"
    by (simp add: set_current_revision_def)
  have "get_revision db1 (r_id ?v) = Some ?v"
    by (rule get_revision_new[of db1 db]) (simp_all add: revs)
  then have gv: "get_revision db1 ?n = Some ?v" by simp
  have "?n \<noteq> 0"
    using new_rowid_pos[of "seq_document_revisions db" "map r_id (document_revisions db)"] by simp
  then have lab: "get_current_revision_label db1 doc_id = Some rl"
    by (simp add: get_current_revision_label_def gd cur gv)
  from Cons.IH[OF gd lab] obtain db' where
    1: "add_document_revisions doc_id uploads db1 = Inr db'"
    and 2: "map r_revision (filter (\<lambda>r. r_document_id r = doc_id) (document_revisions db')) =
             map r_revision (filter (\<lambda>r. r_document_id r = doc_id) (document_revisions db1)) @
               map fst uploads"
    and 3: "get_current_revision_label db' doc_id = Some (last (rl # map fst uploads))"
    by blast
  show ?case
    using 1 2 3 by (simp add: u a revs)
qed

subsection \<open>Replicas and the documents they go to\<close>

lemma target_document:
  assumes "case select_document_id db (d_doc_number row) recip (d_project_id row) of
       None \<Rightarrow> target = x \<and> extra = [replica_document row target recip now]
     | Some i \<Rightarrow> target = i \<and> extra = []"
  shows "\<exists>d \<in> set (documents db @ extra). d_id d = target \<and> d_org_id d = recip \<and>
          d_doc_number d = d_doc_number row \<and> d_project_id d = d_project_id row \<and>
          (select_document_id db (d_doc_number row) recip (d_project_id row) = None \<longrightarrow>
             d_title d = d_title row \<and> d_doc_type d = d_doc_type row \<and>
             d_status d = d_status row)"
proof (cases "select_document_id db (d_doc_number row) recip (d_project_id row)")
  case None
  with assms have "extra = [replica_document row target recip now]" by simp
  then show ?thesis by (simp add: replica_document_def)
next
  case (Some i)
  with assms have t: "target = i" by simp
  from select_document_id_Some[OF Some] obtain d0 where d0: "d0 \<in> set (documents db)"
    "d_id d0 = i" "d_doc_number d0 = d_doc_number row" "d_org_id d0 = recip"
    "d_project_id d0 = d_project_id row"
    by blast
  have n: "select_document_id db (d_doc_number row) recip (d_project_id row) \<noteq> None"
    by (simp add: Some)
  show ?thesis
  proof (rule bexI[of _ d0])
    show "d0 \<in> set (documents db @ extra)" using d0(1) by simp
    show "d_id d0 = target \<and> d_org_id d0 = recip \<and>
          d_doc_number d0 = d_doc_number row \<and> d_project_id d0 = d_project_id row \<and>
          (select_document_id db (d_doc_number row) recip (d_project_id row) = None \<longrightarrow>
             d_title d0 = d_title row \<and> d_doc_type d0 = d_doc_type row \<and>
             d_status d0 = d_status row)"
      using d0(2-5) t n by blast
  qed
qed

lemma transmit_revision_replicated:
  assumes "transmit_revision c tn recip cb now tid rev_id db = Inr db'"
    and "get_revision db rev_id = Some r"
    and "get_document db (r_document_id r) = Some d"
  shows "replicated_by_key db' recip cb d r \<and>
         (select_document_id db (d_doc_number d) recip (d_project_id d) = None \<longrightarrow>
          replicated_identically db' recip cb d r)"
  using assms(1)
proof (cases rule: transmit_revision_effect)
  case (1 src row target extra)
  let ?n = "new_rowid (seq_document_revisions db) (map r_id (document_revisions db))"
  let ?v = "replica_revision src ?n target cb now"
  have s1: "src = r" using 1(1) assms(2) by (metis option.inject)
  have s2: "row = d" using 1(2) assms(3) unfolding s1 by (metis option.inject)
  note sr = s1 s2
  obtain d0 where d0m: "d0 \<in> set (documents db @ extra)"
    and d0c: "d_id d0 = target \<and> d_org_id d0 = recip \<and>
          d_doc_number d0 = d_doc_number row \<and> d_project_id d0 = d_project_id row \<and>
          (select_document_id db (d_doc_number row) recip (d_project_id row) = None \<longrightarrow>
             d_title d0 = d_title row \<and> d_doc_type d0 = d_doc_type row \<and>
             d_status d0 = d_status row)"
    using target_document[OF 1(8)] by (rule bexE)
  have d0: "d0 \<in> set (documents db @ extra)"
    "d_id d0 = target" "d_org_id d0 = recip" "d_doc_number d0 = d_doc_number row"
    "d_project_id d0 = d_project_id row"
    "select_document_id db (d_doc_number row) recip (d_project_id row) = None \<longrightarrow>
       d_title d0 = d_title row \<and> d_doc_type d0 = d_doc_type row \<and> d_status d0 = d_status row"
    using d0m d0c by simp_all
  let ?d = "set_current_revision ?n target d0"
  have m: "?d \<in> set (documents db')"
    using d0(1) unfolding 1(7) by (metis image_eqI set_map)
  have "get_revision db' (r_id ?v) = Some ?v"
    by (rule get_revision_new[of db' db]) (simp_all add: 1(6) replica_revision_def)
  then have gv: "get_revision db' ?n = Some ?v" by (simp add: replica_revision_def)
  have c: "current_revision_matches db' ?d r cb"
    using d0(2) by (simp add: current_revision_matches_def set_current_revision_def gv
        replica_revision_def sr)
  have k: "replicated_by_key db' recip cb d r"
    unfolding replicated_by_key_def
    using m c d0(3,4,5) by (intro bexI[of _ ?d]) (simp_all add: sr)
  have "replicated_identically db' recip cb d r"
    if "select_document_id db (d_doc_number d) recip (d_project_id d) = None"
    unfolding replicated_identically_def
    using m c d0(3,4,5,6) that by (intro bexI[of _ ?d]) (simp_all add: sr)
  with k show ?thesis by blast
qed

lemma source_document_extends:
  assumes "extends db db'" "source_document db x = Some d"
  shows "\<exists>d'. source_document db' x = Some d' \<and> strip_current d' = strip_current d"
proof -
  from assms(2) obtain r where r: "get_revision db x = Some r"
    and d: "get_document db (r_document_id r) = Some d"
    by (auto simp: source_document_def split: option.splits)
  from extends_get_revision[OF assms(1) r] extends_get_document[OF assms(1) d]
  show ?thesis by (simp add: source_document_def)
qed

lemma same_identity_strip:
  "strip_current a' = strip_current a \<Longrightarrow> strip_current b' = strip_current b \<Longrightarrow>
   same_identity a b \<Longrightarrow> same_identity a' b'"
  using strip_eq_fields[of a' a] strip_eq_fields[of b' b]
  by (simp add: same_identity_def)

lemma replica_of_sent_mono:
  assumes "replica_of_sent db recip ids a" "extends db db'"
    "strip_current a' = strip_current a" "set ids \<subseteq> set ids'"
  shows "replica_of_sent db' recip ids' a'"
proof -
  from assms(1) obtain x d where x: "x \<in> set ids" and d: "source_document db x = Some d"
    and s: "same_identity a d" and o: "d_org_id a = recip"
    by (auto simp: replica_of_sent_def split: option.splits)
  from source_document_extends[OF assms(2) d] obtain d' where
    d': "source_document db' x = Some d'" "strip_current d' = strip_current d" by blast
  have "same_identity a' d'" using assms(3) d'(2) s by (rule same_identity_strip)
  moreover have "d_org_id a' = recip" using strip_eq_fields(6)[OF assms(3)] o by simp
  moreover have "x \<in> set ids'" using x assms(4) by blast
  ultimately show ?thesis
    unfolding replica_of_sent_def using d'(1) by (intro conjI bexI[of _ x]) simp_all
qed

lemma stripped_mem:
  "strip_current a \<in> set (map strip_current xs) \<Longrightarrow>
   \<exists>b \<in> set xs. strip_current b = strip_current a"
  by auto

lemma transmit_revisions_new_documents:
  "transmit_revisions c tn recip cb now tid ids db = Inr db' \<Longrightarrow>
   \<forall>nd \<in> set (drop (length (documents db)) (documents db')). replica_of_sent db' recip ids nd"
proof (induction ids arbitrary: db)
  case Nil
  then show ?case by simp
next
  case (Cons x ids)
  from Cons.prems obtain db1 where
    1: "transmit_revision c tn recip cb now tid x db = Inr db1"
    and 2: "transmit_revisions c tn recip cb now tid ids db1 = Inr db'"
    by (auto split: sum.splits)
  note e1 = transmit_revision_extends[OF 1]
  note e2 = transmit_revisions_extends[OF 2]
  from e2 obtain zs where zs:
    "map strip_current (documents db') = map strip_current (documents db1) @ zs"
    by (auto simp: extends_def prefix_def)
  from 1 show ?case
  proof (cases rule: transmit_revision_effect)
    case (1 src row target extra)
    have sd: "source_document db x = Some row"
      by (simp add: source_document_def 1(1,2))
    have l1: "length (documents db1) = length (documents db) + length extra"
      by (simp add: 1(7))
    have z: "zs = map strip_current (drop (length (documents db1)) (documents db'))"
      using arg_cong[OF zs, of "drop (length (documents db1))"] by (simp add: drop_map)
    have m1: "map strip_current (documents db1) =
        map strip_current (documents db) @ map strip_current extra"
      by (simp add: 1(7) o_def)
    have "map strip_current (drop (length (documents db)) (documents db')) =
        drop (length (documents db)) (map strip_current (documents db'))"
      by (simp add: drop_map)
    also have "\<dots> = drop (length (documents db))
        (map strip_current (documents db) @ (map strip_current extra @ zs))"
      by (simp only: zs m1 append_assoc)
    also have "\<dots> = map strip_current extra @ zs"
      by simp
    finally have dr: "map strip_current (drop (length (documents db)) (documents db')) =
        map strip_current extra @ map strip_current (drop (length (documents db1)) (documents db'))"
      by (simp add: z)
    show ?thesis
    proof
      fix nd assume nd: "nd \<in> set (drop (length (documents db)) (documents db'))"
      then have "strip_current nd \<in> set (map strip_current (drop (length (documents db)) (documents db')))"
        by simp
      then consider
        (a) "strip_current nd \<in> set (map strip_current extra)"
        | (b) "strip_current nd \<in> set (map strip_current (drop (length (documents db1)) (documents db')))"
        unfolding dr by auto
      then show "replica_of_sent db' recip (x # ids) nd"
      proof cases
        case a
        then have ne: "extra \<noteq> []" by auto
        have ex: "extra = [replica_document row target recip now]"
          using 1(8) ne by (simp split: option.splits)
        have s: "strip_current nd = strip_current (replica_document row target recip now)"
          using a by (simp add: ex)
        have "replica_of_sent db recip [x] (replica_document row target recip now)"
          by (simp add: replica_of_sent_def sd same_identity_def replica_document_def)
        then show ?thesis
          using extends_trans[OF e1 e2] s by (rule replica_of_sent_mono) simp
      next
        case b
        from stripped_mem[OF b] obtain nd2 where
          n2: "nd2 \<in> set (drop (length (documents db1)) (documents db'))"
          "strip_current nd2 = strip_current nd" by blast
        from Cons.IH[OF 2] n2(1) have "replica_of_sent db' recip ids nd2" by blast
        then show ?thesis
          using extends_refl n2(2)[symmetric] by (rule replica_of_sent_mono) auto
      qed
    qed
  qed
qed

lemma create_transmittal_extends:
  assumes "create_transmittal tn de so re ids cb now db = (Inr tid, db')"
  obtains db1 where
    "transmit_revisions get_conn tn re cb now tid ids db1 = Inr db'"
    "documents db1 = documents db" "document_revisions db1 = document_revisions db"
    "projects db1 = projects db" "events db1 = events db"
    "transmittal_documents db1 = transmittal_documents db"
proof -
  from assms obtain db1 where 1: "insert_transmittal get_conn tn de so re cb now db = Inr (tid, db1)"
    and 2: "transmit_revisions get_conn tn re cb now tid ids db1 = Inr db'"
    by (rule create_transmittal_loop)
  note i = insert_transmittal_Inr[OF 1]
  show ?thesis
    by (rule that[OF 2]) (simp_all add: i(2))
qed






subsection \<open>Row counts, and the documents that \<^verbatim>\<open>Uploaded\<close> events name\<close>

text \<open>Every pass of the loop appends one link, one event and one revision. And the three
  operations keep \<open>uploaded_events_ok\<close>: they write an \<^verbatim>\<open>Uploaded\<close> event only for the
  document they have just inserted, and never remove a document.\<close>

lemma transmit_revisions_lengths:
  "transmit_revisions c tn recip cb now tid ids db = Inr db' \<Longrightarrow>
   length (transmittal_documents db') = length (transmittal_documents db) + length ids \<and>
   length (events db') = length (events db) + length ids \<and>
   length (document_revisions db') = length (document_revisions db) + length ids"
proof (induction ids arbitrary: db)
  case Nil
  then show ?case by simp
next
  case (Cons x ids)
  from Cons.prems obtain db1 where
    1: "transmit_revision c tn recip cb now tid x db = Inr db1"
    and 2: "transmit_revisions c tn recip cb now tid ids db1 = Inr db'"
    by (auto split: sum.splits)
  from 1 show ?case
  proof (cases rule: transmit_revision_effect)
    case (1 src row target extra)
    from Cons.IH[OF 2] show ?thesis by (simp add: 1(4,5,6))
  qed
qed

lemma uploaded_events_ok_step:
  assumes "uploaded_events_ok db"
    and "events db' = events db @ [e]"
    and "e_event_type e = ''Uploaded'' \<longrightarrow> e_document_id e \<in> set (map d_id (documents db'))"
    and "set (map d_id (documents db)) \<subseteq> set (map d_id (documents db'))"
  shows "uploaded_events_ok db'"
  using assms unfolding uploaded_events_ok_def by auto

lemma transmit_revisions_uploaded_events:
  "transmit_revisions c tn recip cb now tid ids db = Inr db' \<Longrightarrow> uploaded_events_ok db \<Longrightarrow>
   uploaded_events_ok db'"
proof (induction ids arbitrary: db)
  case Nil
  then show ?case by simp
next
  case (Cons x ids)
  from Cons.prems(1) obtain db1 where
    1: "transmit_revision c tn recip cb now tid x db = Inr db1"
    and 2: "transmit_revisions c tn recip cb now tid ids db1 = Inr db'"
    by (auto split: sum.splits)
  from 1 have "uploaded_events_ok db1"
  proof (cases rule: transmit_revision_effect)
    case (1 src row target extra)
    show ?thesis
      using Cons.prems(2) 1(5)
      by (rule uploaded_events_ok_step) (simp_all add: sent_event_def 1(7) o_def)
  qed
  with 2 show ?case by (rule Cons.IH)
qed

lemma uploaded_events_ok_preserved:
  assumes "uploaded_events_ok db"
  shows "uploaded_events_ok
           (snd (create_document doc_number title doc_type status org_id project_id
                   revision_label file_path uploaded_by now db))"
    and "uploaded_events_ok
           (snd (add_document_revision document_id revision_label_b file_path_b uploaded_by_b
                   now_b db))"
    and "uploaded_events_ok
           (snd (create_transmittal transmittal_number description sender_org_id
                   recipient_org_id document_revision_ids created_by now_c db))"
proof -
  let ?c = "create_document doc_number title doc_type status org_id project_id
                   revision_label file_path uploaded_by now db"
  show "uploaded_events_ok (snd ?c)"
  proof (cases "fst ?c")
    case (Inl e)
    then have "snd ?c = db" by (auto simp: create_document_def split: sum.splits)
    with assms show ?thesis by simp
  next
    case (Inr i)
    then have "?c = (Inr i, snd ?c)" by (metis prod.collapse)
    note r = create_document_returns[OF this]
    let ?n = "new_rowid (seq_document_revisions db) (map r_id (document_revisions db))"
    let ?e = "\<lparr>e_id = new_rowid (seq_events db) (map e_id (events db)),
              e_document_id = i, e_revision_id = Some ?n,
              e_user_id = uploaded_by, e_event_type = ''Uploaded'', e_timestamp = now,
              e_notes = None\<rparr>"
    have ev: "events (snd ?c) = events db @ [?e]"
      by (subst r(2)) simp
    have ids: "map d_id (documents (snd ?c)) = map d_id (documents db) @ [i]"
      by (subst r(2)) (simp add: o_def)
    show ?thesis
      using assms ev by (rule uploaded_events_ok_step) (auto simp: ids)
  qed
  let ?a = "add_document_revision document_id revision_label_b file_path_b uploaded_by_b
                   now_b db"
  let ?m = "new_rowid (seq_document_revisions db) (map r_id (document_revisions db))"
  let ?f = "\<lparr>e_id = new_rowid (seq_events db) (map e_id (events db)),
              e_document_id = document_id, e_revision_id = Some ?m,
              e_user_id = uploaded_by_b, e_event_type = ''RevisionUploaded'',
              e_timestamp = now_b, e_notes = None\<rparr>"
  have ev: "events (snd ?a) = events db @ [?f]"
    by (simp add: add_document_revision_returns)
  have ids: "map d_id (documents (snd ?a)) = map d_id (documents db)"
    by (simp add: add_document_revision_returns o_def)
  show "uploaded_events_ok (snd ?a)"
    using assms ev by (rule uploaded_events_ok_step) (auto simp: ids)
  let ?t = "create_transmittal transmittal_number description sender_org_id
                   recipient_org_id document_revision_ids created_by now_c db"
  show "uploaded_events_ok (snd ?t)"
  proof (cases "fst ?t")
    case (Inl e)
    then have "snd ?t = db" using create_transmittal_Inl by (metis snd_conv)
    with assms show ?thesis by simp
  next
    case (Inr i)
    then have "?t = (Inr i, snd ?t)" by (metis prod.collapse)
    then obtain db1 where 1: "transmit_revisions get_conn transmittal_number
        recipient_org_id created_by now_c i document_revision_ids db1 = Inr (snd ?t)"
      and d: "documents db1 = documents db" and e: "events db1 = events db"
      by (rule create_transmittal_extends)
    have "uploaded_events_ok db1"
      using assms by (simp add: uploaded_events_ok_def d e)
    with 1 show ?thesis by (rule transmit_revisions_uploaded_events)
  qed
qed

subsection \<open>The rows a send leaves alone\<close>

lemma create_transmittal_keeps_documents:
  assumes "create_transmittal transmittal_number description sender_org_id recipient_org_id
             document_revision_ids created_by now db = (Inr trans_id, db')"
  shows "projects db' = projects db"
    and "map strip_current (take (length (documents db)) (documents db')) =
           map strip_current (documents db)"
proof -
  from assms obtain db1 where 1: "transmit_revisions get_conn transmittal_number
      recipient_org_id created_by now trans_id document_revision_ids db1 = Inr db'"
    and d: "documents db1 = documents db" and p: "projects db1 = projects db"
    by (rule create_transmittal_extends)
  note e = transmit_revisions_extends[OF 1]
  from e obtain zs where
    "map strip_current (documents db') = map strip_current (documents db) @ zs"
    by (auto simp: extends_def prefix_def d)
  then have "take (length (documents db)) (map strip_current (documents db')) =
      map strip_current (documents db)"
    by simp
  then show "map strip_current (take (length (documents db)) (documents db')) =
           map strip_current (documents db)"
    by (simp add: take_map)
  show "projects db' = projects db" using e p by (simp add: extends_def)
qed

subsection \<open>Running the operations on the register\<close>

lemmas statement_defs =
  insert_document_def insert_document_revision_def insert_event_def insert_transmittal_def
  insert_transmittal_document_def update_current_revision_def set_current_revision_def
  get_document_def get_revision_def select_document_id_def new_rowid_def
  get_conn_def connect_def sent_note_def str_int_def digits.simps Let_def

lemma send_tr1:
  "create_transmittal ''TR-1'' ''for review'' 1 2 [1] 1 ''2024-01-04T09:00:00'' org_a_db =
     (Inr 1, tr1_db)"
  by (simp add: create_transmittal_def create_transmittal_statements_def transmit_revision_def
      statement_defs org_a_db_def tr1_db_def)

lemma send_twice:
  "create_transmittal ''TR-1'' ''for review'' 1 2 [1, 1] 1 ''2024-01-04T09:00:00'' org_a_db =
     (Inl IntegrityError, org_a_db)"
  by (simp add: create_transmittal_def create_transmittal_statements_def transmit_revision_def
      statement_defs org_a_db_def)

lemma send_nothing:
  "create_transmittal ''TR-2'' ''nothing'' 1 2 [] 1 ''2024-01-05T09:00:00'' org_a_db =
     (Inr 1, empty_send_db)"
  by (simp add: create_transmittal_def create_transmittal_statements_def
      statement_defs org_a_db_def empty_send_db_def)

lemma send_replica_id:
  "fst (create_transmittal ''TR-3'' ''twice'' 1 2 [1, 2] 1 ''2024-01-05T09:00:00'' org_a_db) = Inr 1"
  by (simp add: create_transmittal_def create_transmittal_statements_def transmit_revision_def
      statement_defs org_a_db_def)

lemma send_unknown:
  "create_transmittal ''TR-4'' ''unknown'' 1 2 [1, 7] 1 ''2024-01-05T09:00:00'' org_a_db =
     (Inl TypeError, org_a_db)"
  by (simp add: create_transmittal_def create_transmittal_statements_def transmit_revision_def
      statement_defs org_a_db_def)

lemma create_doc_002:
  "create_document ''DOC-002'' ''Section'' ''DWG'' ''IFR'' 1 1 ''0'' ''uploads/b.pdf'' 1
     ''2024-01-02T09:00:00'' org_a_db = (Inr 2, two_documents_db)"
  by (simp add: create_document_def create_document_statements_def statement_defs
      org_a_db_def two_documents_db_def)

lemma uploads_to_doc_002:
  "(case add_document_revisions 2
           [(''C'', ''uploads/c.pdf'', 1, ''2024-01-03T09:00:00''),
            (''B'', ''uploads/b2.pdf'', 1, ''2024-01-04T09:00:00'')] two_documents_db of
      Inl e \<Rightarrow> False
    | Inr db' \<Rightarrow>
        map r_revision (get_revisions_for_document db' 2) = [''B'', ''C'', ''0''] \<and>
        get_current_revision_label db' 2 = Some ''B'')"
  by (simp add: add_document_revision_def add_document_revision_statements_def statement_defs
      get_revisions_for_document_def get_current_revision_label_def
      org_a_db_def two_documents_db_def)

lemma send_tr1_again:
  "create_transmittal ''TR-1'' ''for review'' 1 2 [1] 1 ''2024-01-04T09:00:00''
     org_b_register_db = (Inr 1, org_b_received_db)"
  by (simp add: create_transmittal_def create_transmittal_statements_def transmit_revision_def
      statement_defs org_a_db_def org_b_register_db_def org_b_received_db_def doc_001_def)

lemma register_rows:
  "get_revision org_a_db 1 = Some rev_a" "get_document org_a_db 1 = Some doc_001"
  "get_revision org_b_register_db 1 = Some rev_a"
  "get_document org_b_register_db 1 = Some doc_001"
  by (simp_all add: get_revision_def get_document_def org_a_db_def org_b_register_db_def
      rev_a_def doc_001_def)


lemma send_forward:
  "create_transmittal ''TR-2'' ''forward'' 2 3 [2] 2 ''2024-01-06T09:00:00'' forward_db =
     (Inr 2, forwarded_db)"
  by (simp add: create_transmittal_def create_transmittal_statements_def
      transmit_revision_def statement_defs forward_db_def forwarded_db_def tr1_db_def
      doc_001_def)

section \<open>The claims\<close>

text \<open>
  Claim C4. The current-revision invariant is preserved by every mutation: if every
  document of the store points to the revision most recently appended to it (NULL when it
  has none), the same holds of the store that \<^verbatim>\<open>create_document\<close>,
  \<^verbatim>\<open>add_document_revision\<close> and \<^verbatim>\<open>create_transmittal\<close> leave behind,
  whatever their arguments and whether they return or raise.
\<close>

theorem current_revision_preserved:
  assumes "current_revision_ok db"
  shows "current_revision_ok
           (snd (create_document doc_number title doc_type status org_id project_id
                   revision_label file_path uploaded_by now db)) \<and>
         current_revision_ok
           (snd (add_document_revision document_id revision_label_b file_path_b uploaded_by_b
                   now_b db)) \<and>
         current_revision_ok
           (snd (create_transmittal transmittal_number description sender_org_id
                   recipient_org_id document_revision_ids created_by now_c db))"
proof (intro conjI)
  show "current_revision_ok
           (snd (create_document doc_number title doc_type status org_id project_id
                   revision_label file_path uploaded_by now db))"
    using assms create_document_statements_ok[OF _ assms]
    by (auto simp: create_document_def split: sum.splits)
  show "current_revision_ok
           (snd (add_document_revision document_id revision_label_b file_path_b uploaded_by_b
                   now_b db))"
    using assms add_document_revision_statements_ok[OF _ assms]
    by (auto simp: add_document_revision_def split: sum.splits)
  show "current_revision_ok
           (snd (create_transmittal transmittal_number description sender_org_id
                   recipient_org_id document_revision_ids created_by now_c db))"
    using assms create_transmittal_statements_ok[OF _ assms]
    by (auto simp: create_transmittal_def split: sum.splits)
qed

theorem current_revision_preserved_witness:
  "current_revision_ok org_a_db \<and>
   current_revision_ok
     (snd (create_document ''DOC-002'' ''Section'' ''DWG'' ''IFR'' 1 1 ''0'' ''uploads/b.pdf'' 1
             ''2024-01-02T09:00:00'' org_a_db)) \<and>
   current_revision_ok
     (snd (add_document_revision 1 ''B'' ''uploads/a2.pdf'' 1 ''2024-01-03T09:00:00'' org_a_db)) \<and>
   current_revision_ok
     (snd (create_transmittal ''TR-1'' ''for review'' 1 2 [1] 1 ''2024-01-04T09:00:00'' org_a_db))"
proof -
  have h: "current_revision_ok org_a_db"
    by (simp add: current_revision_ok_def latest_revision_id_def org_a_db_def)
  show ?thesis
    using h current_revision_preserved [OF h, where doc_number = "''DOC-002''"
        and title = "''Section''" and doc_type = "''DWG''" and status = "''IFR''"
        and org_id = 1 and project_id = 1 and revision_label = "''0''"
        and file_path = "''uploads/b.pdf''" and uploaded_by = 1
        and now = "''2024-01-02T09:00:00''" and document_id = 1
        and revision_label_b = "''B''" and file_path_b = "''uploads/a2.pdf''"
        and uploaded_by_b = 1 and now_b = "''2024-01-03T09:00:00''"
        and transmittal_number = "''TR-1''" and description = "''for review''"
        and sender_org_id = 1 and recipient_org_id = 2 and document_revision_ids = "[1]"
        and created_by = 1 and now_c = "''2024-01-04T09:00:00''"]
    by simp
qed

text \<open>
  Claim C1. \<^verbatim>\<open>create_transmittal\<close> is all-or-nothing. For every argument list and
  every store, either the call raises and the store is the one before the call, or it
  returns the id of a transmittal row that is new in the store and carries the arguments,
  and for every revision id of the input list the store holds the link, a new
  \<^verbatim>\<open>Sent\<close> event and a new replicated revision on a document of the recipient
  organization (\<open>revision_transmitted\<close>); the link table, the event log and the revision
  ledger have grown by one row per revision id.
\<close>

theorem create_transmittal_all_or_nothing:
  "case create_transmittal transmittal_number description sender_org_id recipient_org_id
          document_revision_ids created_by now db of
     (Inl e, db') \<Rightarrow> db' = db
   | (Inr trans_id, db') \<Rightarrow>
       transmittals db' = transmittals db @
         [\<lparr>t_id = trans_id, t_transmittal_number = transmittal_number,
           t_description = Some description, t_sender_org_id = sender_org_id,
           t_recipient_org_id = recipient_org_id, t_created_by = created_by,
           t_created_at = now\<rparr>] \<and>
       trans_id \<notin> set (map t_id (transmittals db)) \<and>
       (\<forall>rev_id \<in> set document_revision_ids.
          revision_transmitted db db' transmittal_number recipient_org_id created_by trans_id
            rev_id) \<and>
       length (transmittal_documents db') =
         length (transmittal_documents db) + length document_revision_ids \<and>
       length (events db') = length (events db) + length document_revision_ids \<and>
       length (document_revisions db') =
         length (document_revisions db) + length document_revision_ids"
proof (cases "create_transmittal_statements get_conn transmittal_number description
    sender_org_id recipient_org_id document_revision_ids created_by now db")
  case (Inl e)
  then show ?thesis by (simp add: create_transmittal_def)
next
  case (Inr p)
  obtain trans_id db' where p: "p = (trans_id, db')" by (cases p)
  from Inr p obtain db1 where 1:
    "insert_transmittal get_conn transmittal_number description sender_org_id recipient_org_id
       created_by now db = Inr (trans_id, db1)"
    by (auto simp: create_transmittal_statements_def split: sum.splits)
  from Inr p 1 have 2:
    "transmit_revisions get_conn transmittal_number recipient_org_id created_by now trans_id
       document_revision_ids db1 = Inr db'"
    by (auto simp: create_transmittal_statements_def split: sum.splits)
  note i = insert_transmittal_Inr[OF 1]
  have t: "transmittals db' = transmittals db1"
    using transmit_revisions_extends[OF 2] by (simp add: extends_def)
  have f: "trans_id \<notin> set (map t_id (transmittals db))"
    unfolding i(1) by (rule new_rowid_fresh)
  have "\<forall>rev_id \<in> set document_revision_ids.
          revision_transmitted db1 db' transmittal_number recipient_org_id created_by trans_id
            rev_id"
    using 2 by (rule transmit_revisions_transmitted)
  moreover have "events db = events db1" "document_revisions db = document_revisions db1"
    by (simp_all add: i(2))
  ultimately have "\<forall>rev_id \<in> set document_revision_ids.
          revision_transmitted db db' transmittal_number recipient_org_id created_by trans_id
            rev_id"
    using revision_transmitted_base by blast
  moreover have
    "length (transmittal_documents db') =
       length (transmittal_documents db) + length document_revision_ids \<and>
     length (events db') = length (events db) + length document_revision_ids \<and>
     length (document_revisions db') =
       length (document_revisions db) + length document_revision_ids"
    using transmit_revisions_lengths[OF 2] by (simp add: i(2))
  ultimately show ?thesis
    using f by (simp add: create_transmittal_def Inr p t i(2))
qed

theorem create_transmittal_all_or_nothing_witness:
  "create_transmittal ''TR-1'' ''for review'' 1 2 [1] 1 ''2024-01-04T09:00:00'' org_a_db =
     (Inr 1, tr1_db) \<and>
   revision_transmitted org_a_db tr1_db ''TR-1'' 2 1 1 1"
  using create_transmittal_all_or_nothing [where transmittal_number = "''TR-1''"
      and description = "''for review''" and sender_org_id = 1 and recipient_org_id = 2
      and document_revision_ids = "[1]" and created_by = 1
      and now = "''2024-01-04T09:00:00''" and db = org_a_db]
  by (simp add: send_tr1)

text \<open>
  Claim C9. A revision id that occurs twice in the list makes the whole call fail, and the
  store is the one before the call: no transmittal, link, event or replica of the call is
  persisted. The statement that raises is the second insertion of the link
  \<open>(trans_id, rev_id)\<close>, which violates the primary key of \<^verbatim>\<open>transmittal_documents\<close>:
  whenever the ids before the second occurrence can be sent on their own, the call raises
  \<^verbatim>\<open>IntegrityError\<close> (otherwise an earlier pass has raised already).
\<close>

theorem duplicate_revision_id_fails:
  "(\<not> distinct document_revision_ids \<longrightarrow>
      (\<exists>e. create_transmittal transmittal_number description sender_org_id recipient_org_id
             document_revision_ids created_by now db = (Inl e, db))) \<and>
   (\<forall>xs r ys trans_id db'.
      document_revision_ids = xs @ r # ys \<and> r \<in> set xs \<and>
      create_transmittal transmittal_number description sender_org_id recipient_org_id
        xs created_by now db = (Inr trans_id, db') \<longrightarrow>
      create_transmittal transmittal_number description sender_org_id recipient_org_id
        document_revision_ids created_by now db = (Inl IntegrityError, db))"
proof (intro conjI impI allI)
  assume nd: "\<not> distinct document_revision_ids"
  show "\<exists>e. create_transmittal transmittal_number description sender_org_id recipient_org_id
           document_revision_ids created_by now db = (Inl e, db)"
  proof (rule create_transmittal_fails)
    fix tid db'
    show "create_transmittal transmittal_number description sender_org_id recipient_org_id
           document_revision_ids created_by now db \<noteq> (Inr tid, db')"
    proof
      assume "create_transmittal transmittal_number description sender_org_id recipient_org_id
           document_revision_ids created_by now db = (Inr tid, db')"
      then obtain db1 where "transmit_revisions get_conn transmittal_number recipient_org_id
          created_by now tid document_revision_ids db1 = Inr db'"
        by (rule create_transmittal_loop)
      then have "distinct document_revision_ids" by (rule transmit_revisions_distinct)
      with nd show False by simp
    qed
  qed
next
  fix xs r ys trans_id db'
  assume a: "document_revision_ids = xs @ r # ys \<and> r \<in> set xs \<and>
      create_transmittal transmittal_number description sender_org_id recipient_org_id
        xs created_by now db = (Inr trans_id, db')"
  then have "create_transmittal transmittal_number description sender_org_id recipient_org_id
        (xs @ r # ys) created_by now db = (Inl IntegrityError, db)"
    using create_transmittal_second_link by blast
  with a show "create_transmittal transmittal_number description sender_org_id recipient_org_id
        document_revision_ids created_by now db = (Inl IntegrityError, db)"
    by simp
qed

theorem duplicate_revision_id_fails_witness:
  "\<not> distinct [1, 1 :: int] \<and> [1, 1 :: int] = [1] @ 1 # [] \<and> (1 :: int) \<in> set [1] \<and>
   create_transmittal ''TR-1'' ''for review'' 1 2 [1] 1 ''2024-01-04T09:00:00'' org_a_db =
     (Inr 1, tr1_db) \<and>
   create_transmittal ''TR-1'' ''for review'' 1 2 [1, 1] 1 ''2024-01-04T09:00:00'' org_a_db =
     (Inl IntegrityError, org_a_db)"
proof -
  note t = duplicate_revision_id_fails [where document_revision_ids = "[1, 1]"
      and transmittal_number = "''TR-1''" and description = "''for review''"
      and sender_org_id = 1 and recipient_org_id = 2 and created_by = 1
      and now = "''2024-01-04T09:00:00''" and db = org_a_db]
  from conjunct2[OF t] send_tr1
  have "create_transmittal ''TR-1'' ''for review'' 1 2 [1, 1] 1 ''2024-01-04T09:00:00''
      org_a_db = (Inl IntegrityError, org_a_db)"
    by (elim allE[of _ "[1]"] allE[of _ 1] allE[of _ "[]"] allE[of _ "1::int"] allE[of _ tr1_db]) simp
  then show ?thesis by (simp add: send_tr1)
qed

text \<open>
  Claim C6, as stated, fails on \<^verbatim>\<open>create_transmittal\<close>: the function checks neither
  the list nor the recipient. With an empty list it returns and has persisted a
  transmittal with no links (the route handler \<^verbatim>\<open>create_transmittal_action\<close> is what
  refuses an empty selection, before it calls the function); and an id that names no
  revision before the call resolves when the loop reaches it after the pass that created
  a replica with that rowid. On the register: the empty send returns id 1 and changes the
  transmittal table; revision 2 does not exist, and the send of \<open>[1, 2]\<close> returns.
\<close>

theorem send_error_contract_counterexample:
  "create_transmittal ''TR-2'' ''nothing'' 1 2 [] 1 ''2024-01-05T09:00:00'' org_a_db =
     (Inr 1, empty_send_db) \<and>
   transmittals empty_send_db \<noteq> transmittals org_a_db \<and>
   get_revision org_a_db 2 = None \<and>
   fst (create_transmittal ''TR-3'' ''twice'' 1 2 [1, 2] 1 ''2024-01-05T09:00:00'' org_a_db) =
     Inr 1"
proof -
  have "get_revision org_a_db 2 = None"
    by (simp add: get_revision_def org_a_db_def)
  moreover have "transmittals empty_send_db \<noteq> transmittals org_a_db"
    by (simp add: empty_send_db_def org_a_db_def)
  ultimately show ?thesis by (simp add: send_nothing send_replica_id)
qed

text \<open>
  Claim C6, amended. \<^verbatim>\<open>create_transmittal\<close> raises, and leaves the store as it was,
  whenever some position of the revision-id list holds an id that does not resolve there
  (\<open>resolves_at\<close>: it is neither the id of a revision of the store nor one of the rowids
  of the replicas created by the passes before it); whenever the call raises, the
  transmittal table is the one before the call; and the call with the empty list returns
  the new transmittal's id and has persisted the transmittal row and nothing else.
\<close>

theorem send_error_contract:
  "((\<exists>j < length document_revision_ids. \<not> resolves_at db document_revision_ids j) \<longrightarrow>
    (\<exists>e. create_transmittal transmittal_number description sender_org_id recipient_org_id
            document_revision_ids created_by now db = (Inl e, db))) \<and>
   (\<forall>e db'. create_transmittal transmittal_number description sender_org_id recipient_org_id
              document_revision_ids created_by now db = (Inl e, db') \<longrightarrow>
            transmittals db' = transmittals db) \<and>
   create_transmittal transmittal_number description sender_org_id recipient_org_id []
       created_by now db =
     (Inr (new_rowid (seq_transmittals db) (map t_id (transmittals db))),
      db\<lparr>transmittals := transmittals db @
            [\<lparr>t_id = new_rowid (seq_transmittals db) (map t_id (transmittals db)),
              t_transmittal_number = transmittal_number, t_description = Some description,
              t_sender_org_id = sender_org_id, t_recipient_org_id = recipient_org_id,
              t_created_by = created_by, t_created_at = now\<rparr>],
          seq_transmittals := nat (new_rowid (seq_transmittals db) (map t_id (transmittals db)))\<rparr>)"
proof (intro conjI impI allI)
  assume m: "\<exists>j < length document_revision_ids. \<not> resolves_at db document_revision_ids j"
  show "\<exists>e. create_transmittal transmittal_number description sender_org_id recipient_org_id
            document_revision_ids created_by now db = (Inl e, db)"
  proof (rule create_transmittal_fails)
    fix tid db'
    show "create_transmittal transmittal_number description sender_org_id recipient_org_id
           document_revision_ids created_by now db \<noteq> (Inr tid, db')"
    proof
      assume "create_transmittal transmittal_number description sender_org_id recipient_org_id
           document_revision_ids created_by now db = (Inr tid, db')"
      then obtain db1 where 1: "insert_transmittal get_conn transmittal_number description
          sender_org_id recipient_org_id created_by now db = Inr (tid, db1)"
        and 2: "transmit_revisions get_conn transmittal_number recipient_org_id
          created_by now tid document_revision_ids db1 = Inr db'"
        by (rule create_transmittal_loop)
      from m obtain j where j: "j < length document_revision_ids"
        "\<not> resolves_at db document_revision_ids j"
        by blast
      note i = insert_transmittal_Inr[OF 1]
      have "resolves_at db1 document_revision_ids j"
        using 2 j(1) by (rule transmit_revisions_resolves)
      then have "resolves_at db document_revision_ids j"
        by (simp add: resolves_at_def i(2) get_revision_def)
      with j(2) show False by simp
    qed
  qed
next
  fix e db'
  assume "create_transmittal transmittal_number description sender_org_id recipient_org_id
              document_revision_ids created_by now db = (Inl e, db')"
  then show "transmittals db' = transmittals db"
    by (auto simp: create_transmittal_def split: sum.splits)
next
  show "create_transmittal transmittal_number description sender_org_id recipient_org_id []
       created_by now db =
     (Inr (new_rowid (seq_transmittals db) (map t_id (transmittals db))),
      db\<lparr>transmittals := transmittals db @
            [\<lparr>t_id = new_rowid (seq_transmittals db) (map t_id (transmittals db)),
              t_transmittal_number = transmittal_number, t_description = Some description,
              t_sender_org_id = sender_org_id, t_recipient_org_id = recipient_org_id,
              t_created_by = created_by, t_created_at = now\<rparr>],
          seq_transmittals := nat (new_rowid (seq_transmittals db) (map t_id (transmittals db)))\<rparr>)"
    by (simp add: create_transmittal_def create_transmittal_statements_def insert_transmittal_def
        get_conn_def connect_def Let_def)
qed

theorem send_error_contract_witness:
  "(1::nat) < length [1, 7 :: int] \<and> \<not> resolves_at org_a_db [1, 7] 1 \<and>
   create_transmittal ''TR-4'' ''unknown'' 1 2 [1, 7] 1 ''2024-01-05T09:00:00'' org_a_db =
     (Inl TypeError, org_a_db)"
proof -
  have h: "\<not> resolves_at org_a_db [1, 7] 1"
    by (simp add: resolves_at_def get_revision_def new_rowid_def org_a_db_def)
  then have "\<exists>j < length [1, 7 :: int]. \<not> resolves_at org_a_db [1, 7] j"
    by (intro exI[of _ 1]) simp
  with conjunct1 [OF send_error_contract [where document_revision_ids = "[1, 7]"
        and db = org_a_db and transmittal_number = "''TR-4''" and description = "''unknown''"
        and sender_org_id = 1 and recipient_org_id = 2 and created_by = 1
        and now = "''2024-01-05T09:00:00''"]]
  have "\<exists>e. create_transmittal ''TR-4'' ''unknown'' 1 2 [1, 7] 1 ''2024-01-05T09:00:00''
          org_a_db = (Inl e, org_a_db)"
    by (rule mp)
  with h show ?thesis by (simp add: send_unknown)
qed

text \<open>
  Claim C7 does not hold of the code. \<^verbatim>\<open>add_document_revision\<close> with a document id
  that the register does not hold (99 here) returns a revision id and has appended a
  revision and a \<^verbatim>\<open>RevisionUploaded\<close> event that name the missing document: the
  connection of \<^verbatim>\<open>get_conn\<close> never executed \<^verbatim>\<open>PRAGMA foreign_keys = ON\<close>, so the
  FOREIGN KEY clause of \<^verbatim>\<open>document_revisions\<close> is not enforced. On a connection with the
  pragma executed, as \<^verbatim>\<open>init_db\<close> does on its own, the same statements raise
  \<^verbatim>\<open>IntegrityError\<close> at the first INSERT.
\<close>

theorem add_revision_unknown_document:
  "get_document org_a_db 99 = None \<and>
   add_document_revision 99 ''B'' ''uploads/x.pdf'' 1 ''2024-01-06T09:00:00'' org_a_db =
     (Inr 2, orphan_revision_db) \<and>
   document_revisions orphan_revision_db \<noteq> document_revisions org_a_db \<and>
   events orphan_revision_db \<noteq> events org_a_db \<and>
   add_document_revision_statements (pragma_foreign_keys_on get_conn) 99 ''B'' ''uploads/x.pdf'' 1
       ''2024-01-06T09:00:00'' org_a_db = Inl IntegrityError"
  by (simp add: add_document_revision_def add_document_revision_statements_def statement_defs
      pragma_foreign_keys_on_def org_a_db_def orphan_revision_db_def)

text \<open>
  Claim C3. When \<^verbatim>\<open>create_document\<close> returns a document id, the label of the
  document's current revision (as \<^verbatim>\<open>list_documents\<close> computes it) is the label given
  to the call, and exactly one \<^verbatim>\<open>Uploaded\<close> event names the document; that event
  names the initial revision, which carries the label and the file path of the call. The
  store before the call is one in which every \<^verbatim>\<open>Uploaded\<close> event names a document of
  the document table; the three operations keep that property
  (\<open>uploaded_events_ok_preserved\<close>), and a store without events has it.
\<close>

theorem create_document_initial_revision:
  assumes "create_document doc_number title doc_type status org_id project_id revision_label
             file_path uploaded_by now db = (Inr doc_id, db')"
    and "uploaded_events_ok db"
  shows "get_current_revision_label db' doc_id = Some revision_label \<and>
         (\<exists>ev rev.
            filter (\<lambda>e. e_document_id e = doc_id \<and> e_event_type e = ''Uploaded'') (events db')
              = [ev] \<and>
            e_revision_id ev = Some (r_id rev) \<and>
            get_revision db' (r_id rev) = Some rev \<and>
            r_document_id rev = doc_id \<and> r_revision rev = revision_label \<and>
            r_file_path rev = file_path)"
proof
  show "get_current_revision_label db' doc_id = Some revision_label"
    using assms(1) by (rule label_after_create)
next
  note r = create_document_returns[OF assms(1)]
  let ?n = "new_rowid (seq_document_revisions db) (map r_id (document_revisions db))"
  let ?v = "\<lparr>r_id = ?n, r_document_id = doc_id, r_revision = revision_label,
              r_file_path = file_path, r_uploaded_by = uploaded_by, r_uploaded_at = now\<rparr>"
  let ?e = "\<lparr>e_id = new_rowid (seq_events db) (map e_id (events db)),
              e_document_id = doc_id, e_revision_id = Some ?n,
              e_user_id = uploaded_by, e_event_type = ''Uploaded'', e_timestamp = now,
              e_notes = None\<rparr>"
  have "get_revision db' (r_id ?v) = Some ?v"
    by (rule get_revision_new[of db' db]) (simp_all add: r(2))
  then have v: "get_revision db' ?n = Some ?v" by simp
  have "events db' = events db @ [?e]" by (simp add: r(2))
  then have "filter (\<lambda>e. e_document_id e = doc_id \<and> e_event_type e = ''Uploaded'') (events db')
      = [?e]"
    using uploaded_events_fresh[OF assms(2)] by (simp add: r(1))
  with v show "\<exists>ev rev.
            filter (\<lambda>e. e_document_id e = doc_id \<and> e_event_type e = ''Uploaded'') (events db')
              = [ev] \<and>
            e_revision_id ev = Some (r_id rev) \<and>
            get_revision db' (r_id rev) = Some rev \<and>
            r_document_id rev = doc_id \<and> r_revision rev = revision_label \<and>
            r_file_path rev = file_path"
    by (intro exI[of _ ?e] exI[of _ ?v]) simp
qed

theorem create_document_initial_revision_witness:
  "create_document ''DOC-002'' ''Section'' ''DWG'' ''IFR'' 1 1 ''0'' ''uploads/b.pdf'' 1
     ''2024-01-02T09:00:00'' org_a_db = (Inr 2, two_documents_db) \<and>
   uploaded_events_ok org_a_db \<and>
   get_current_revision_label two_documents_db 2 = Some ''0'' \<and>
   length (filter (\<lambda>e. e_document_id e = 2 \<and> e_event_type e = ''Uploaded'')
             (events two_documents_db)) = 1"
proof -
  have h: "uploaded_events_ok org_a_db"
    by (simp add: uploaded_events_ok_def org_a_db_def)
  from create_document_initial_revision[OF create_doc_002 h] h show ?thesis
    by (auto simp: create_doc_002)
qed

text \<open>
  Uploads to a new document, on a store in which every revision names a document of the
  document table (what the FOREIGN KEY clause of \<^verbatim>\<open>document_revisions\<close> would keep
  true, were it enforced). After \<^verbatim>\<open>create_document\<close> has returned a document id, any
  sequence of \<open>N\<close> calls of \<^verbatim>\<open>add_document_revision\<close> on that id returns, and then
  \<^verbatim>\<open>get_revisions_for_document\<close> gives \<open>N + 1\<close> rows, whose labels are the initial
  label and the labels of the calls, in descending order of \<^verbatim>\<open>uploaded_at\<close>, and the
  label of the current revision is the label of the last call (the initial label when
  \<open>N = 0\<close>), whatever the labels are.
\<close>

theorem revisions_after_uploads:
  assumes "create_document doc_number title doc_type status org_id project_id revision_label
             file_path uploaded_by now db = (Inr doc_id, db1)"
    and "revisions_reference_documents db"
  shows "\<exists>db'. add_document_revisions doc_id uploads db1 = Inr db' \<and>
           length (get_revisions_for_document db' doc_id) = length uploads + 1 \<and>
           mset (map r_revision (get_revisions_for_document db' doc_id)) =
             mset (revision_label # map fst uploads) \<and>
           sorted_wrt (\<ge>) (map r_uploaded_at (get_revisions_for_document db' doc_id)) \<and>
           get_current_revision_label db' doc_id =
             Some (last (revision_label # map fst uploads))"
proof -
  note r = create_document_returns[OF assms(1)]
  let ?n = "new_rowid (seq_document_revisions db) (map r_id (document_revisions db))"
  have "doc_id \<notin> set (map d_id (documents db))"
    unfolding r(1) by (rule new_rowid_fresh)
  with assms(2) have "\<forall>r \<in> set (document_revisions db). r_document_id r \<noteq> doc_id"
    unfolding revisions_reference_documents_def by metis
  then have f0: "filter (\<lambda>r. r_document_id r = doc_id) (document_revisions db) = []"
    by (simp add: filter_empty_conv)
  have f1: "map r_revision (filter (\<lambda>r. r_document_id r = doc_id) (document_revisions db1)) =
      [revision_label]"
    using f0 by (simp add: r(2))
  have "get_document db1 doc_id \<noteq> None"
    using label_after_create[OF assms(1)]
    by (auto simp: get_current_revision_label_def split: option.splits)
  then obtain d where d: "get_document db1 doc_id = Some d" by blast
  from add_document_revisions_effect[OF d label_after_create[OF assms(1)], of uploads]
  obtain db' where
    1: "add_document_revisions doc_id uploads db1 = Inr db'"
    and 2: "map r_revision (filter (\<lambda>r. r_document_id r = doc_id) (document_revisions db')) =
             map r_revision (filter (\<lambda>r. r_document_id r = doc_id) (document_revisions db1)) @
               map fst uploads"
    and 3: "get_current_revision_label db' doc_id =
             Some (last (revision_label # map fst uploads))"
    by blast
  from 2 f1 have eq:
    "map r_revision (filter (\<lambda>r. r_document_id r = doc_id) (document_revisions db')) =
       revision_label # map fst uploads"
    by simp
  have "mset (map r_revision (get_revisions_for_document db' doc_id)) =
      mset (map r_revision (filter (\<lambda>r. r_document_id r = doc_id) (document_revisions db')))"
    by (simp add: get_revisions_mset)
  also have "\<dots> = mset (revision_label # map fst uploads)"
    by (simp only: eq)
  finally have m: "mset (map r_revision (get_revisions_for_document db' doc_id)) =
      mset (revision_label # map fst uploads)" .
  then have "size (mset (map r_revision (get_revisions_for_document db' doc_id))) =
      size (mset (revision_label # map fst uploads))"
    by simp
  then have "length (get_revisions_for_document db' doc_id) = length uploads + 1"
    by simp
  with 1 m 3 get_revisions_sorted[of db' doc_id] show ?thesis by blast
qed

theorem revisions_after_uploads_witness:
  "create_document ''DOC-002'' ''Section'' ''DWG'' ''IFR'' 1 1 ''0'' ''uploads/b.pdf'' 1
     ''2024-01-02T09:00:00'' org_a_db = (Inr 2, two_documents_db) \<and>
   revisions_reference_documents org_a_db \<and>
   (case add_document_revisions 2
           [(''C'', ''uploads/c.pdf'', 1, ''2024-01-03T09:00:00''),
            (''B'', ''uploads/b2.pdf'', 1, ''2024-01-04T09:00:00'')] two_documents_db of
      Inl e \<Rightarrow> False
    | Inr db' \<Rightarrow>
        length (get_revisions_for_document db' 2) = 3 \<and>
        map r_revision (get_revisions_for_document db' 2) = [''B'', ''C'', ''0''] \<and>
        get_current_revision_label db' 2 = Some ''B'')"
proof -
  have h: "revisions_reference_documents org_a_db"
    by (simp add: revisions_reference_documents_def org_a_db_def)
  from revisions_after_uploads[OF create_doc_002 h,
      of "[(''C'', ''uploads/c.pdf'', 1, ''2024-01-03T09:00:00''),
           (''B'', ''uploads/b2.pdf'', 1, ''2024-01-04T09:00:00'')]"]
  obtain db' where 1: "add_document_revisions 2
           [(''C'', ''uploads/c.pdf'', 1, ''2024-01-03T09:00:00''),
            (''B'', ''uploads/b2.pdf'', 1, ''2024-01-04T09:00:00'')] two_documents_db = Inr db'"
    and 2: "length (get_revisions_for_document db' 2) = 3"
    by auto
  from uploads_to_doc_002 1 2 h show ?thesis
    by (simp add: create_doc_002)
qed

text \<open>
  Claim C8 does not hold of the code. \<^verbatim>\<open>add_document_revision\<close> does not look the
  document up, and the connection of \<^verbatim>\<open>get_conn\<close> never executed
  \<^verbatim>\<open>PRAGMA foreign_keys = ON\<close>, so an upload to the id 2, which no document of the
  register has, returns and has appended a revision that names document 2.
  \<^verbatim>\<open>create_document\<close> then gives the next document the id 2, and with no upload to it
  at all (\<open>N = 0\<close>) \<^verbatim>\<open>get_revisions_for_document\<close> lists two revisions for it, its
  initial revision and the earlier one, where the claim has \<open>N + 1 = 1\<close>. On a connection
  with the pragma executed the first call raises \<^verbatim>\<open>IntegrityError\<close> at its first
  INSERT. This is the defect that claim C7 meets.
\<close>

theorem revisions_after_orphan_upload:
  "get_document org_a_db 2 = None \<and>
   add_document_revision 2 ''X'' ''uploads/x.pdf'' 1 ''2024-01-02T08:00:00'' org_a_db =
     (Inr 2, orphan_of_2_db) \<and>
   create_document ''DOC-002'' ''Section'' ''DWG'' ''IFR'' 1 1 ''0'' ''uploads/b.pdf'' 1
     ''2024-01-02T09:00:00'' orphan_of_2_db = (Inr 2, doc_002_on_orphan_db) \<and>
   add_document_revisions 2 [] doc_002_on_orphan_db = Inr doc_002_on_orphan_db \<and>
   map r_revision (get_revisions_for_document doc_002_on_orphan_db 2) = [''0'', ''X''] \<and>
   length (get_revisions_for_document doc_002_on_orphan_db 2) = 2 \<and>
   add_document_revision_statements (pragma_foreign_keys_on get_conn) 2 ''X'' ''uploads/x.pdf'' 1
       ''2024-01-02T08:00:00'' org_a_db = Inl IntegrityError"
proof -
  have 1: "get_document org_a_db 2 = None"
    by (simp add: get_document_def org_a_db_def)
  have 2: "add_document_revision 2 ''X'' ''uploads/x.pdf'' 1 ''2024-01-02T08:00:00'' org_a_db =
     (Inr 2, orphan_of_2_db)"
    by (simp add: add_document_revision_def add_document_revision_statements_def
        statement_defs org_a_db_def orphan_of_2_db_def)
  have 3: "create_document ''DOC-002'' ''Section'' ''DWG'' ''IFR'' 1 1 ''0'' ''uploads/b.pdf'' 1
     ''2024-01-02T09:00:00'' orphan_of_2_db = (Inr 2, doc_002_on_orphan_db)"
    by (simp add: create_document_def create_document_statements_def statement_defs
        org_a_db_def orphan_of_2_db_def doc_002_on_orphan_db_def)
  have 4: "map r_revision (get_revisions_for_document doc_002_on_orphan_db 2) = [''0'', ''X'']"
    by (simp add: get_revisions_for_document_def org_a_db_def orphan_of_2_db_def
        doc_002_on_orphan_db_def)
  have 5: "add_document_revision_statements (pragma_foreign_keys_on get_conn) 2 ''X''
       ''uploads/x.pdf'' 1 ''2024-01-02T08:00:00'' org_a_db = Inl IntegrityError"
    by (simp add: add_document_revision_statements_def statement_defs
        pragma_foreign_keys_on_def org_a_db_def)
  from arg_cong[OF 4, of length] have 6:
    "length (get_revisions_for_document doc_002_on_orphan_db 2) = 2" by simp
  from 1 2 3 4 5 6 show ?thesis by simp
qed

text \<open>
  Claim C2, as stated, fails where the recipient already holds a document with the sent
  document's number and project: \<^verbatim>\<open>create_transmittal\<close> then appends the revision to
  that document, which keeps its own title, type and status. On \<open>org_b_register_db\<close> the
  send of revision 1 returns, and afterwards no document of Org B has the title, type and
  status of the sent document.
\<close>

theorem round_trip_replication_counterexample:
  "get_revision org_b_register_db 1 = Some rev_a \<and>
   get_document org_b_register_db (r_document_id rev_a) = Some doc_001 \<and>
   create_transmittal ''TR-1'' ''for review'' 1 2 [1] 1 ''2024-01-04T09:00:00''
     org_b_register_db = (Inr 1, org_b_received_db) \<and>
   \<not> replicated_identically org_b_received_db 2 1 doc_001 rev_a"
proof -
  have "r_document_id rev_a = 1" by (simp add: rev_a_def)
  moreover have "\<not> replicated_identically org_b_received_db 2 1 doc_001 rev_a"
    by (simp add: replicated_identically_def org_b_received_db_def org_b_register_db_def
        org_a_db_def doc_001_def)
  ultimately show ?thesis by (simp add: register_rows send_tr1_again)
qed

text \<open>
  Claim C2, amended. After a send of the single revision \<open>r\<close> of document \<open>d\<close> has
  returned, the recipient organization's register holds a document with the number and
  the project of \<open>d\<close> whose current revision is one of its own revisions, carries the label
  and the file path of \<open>r\<close> and is attributed to the transmittal's creator; and when the
  recipient held no document with that number and project before the send, that document
  has the title, type and status of \<open>d\<close> as well. The documents the store held before
  the send, a document of the recipient with that number and project among them, are the
  same rows afterwards but for their current-revision pointer: such a document keeps its
  own title, type and status.
\<close>

theorem round_trip_replication:
  assumes "create_transmittal transmittal_number description sender_org_id recipient_org_id
             [rev_id] created_by now db = (Inr trans_id, db')"
    and "get_revision db rev_id = Some r"
    and "get_document db (r_document_id r) = Some d"
  shows "replicated_by_key db' recipient_org_id created_by d r \<and>
         (select_document_id db (d_doc_number d) recipient_org_id (d_project_id d) = None \<longrightarrow>
            replicated_identically db' recipient_org_id created_by d r) \<and>
         map strip_current (take (length (documents db)) (documents db')) =
           map strip_current (documents db)"
proof -
  from assms(1) obtain db1 where 1: "insert_transmittal get_conn transmittal_number description
          sender_org_id recipient_org_id created_by now db = Inr (trans_id, db1)"
    and 2: "transmit_revisions get_conn transmittal_number recipient_org_id
          created_by now trans_id [rev_id] db1 = Inr db'"
    by (rule create_transmittal_loop)
  note i = insert_transmittal_Inr[OF 1]
  from 2 have 3: "transmit_revision get_conn transmittal_number recipient_org_id
          created_by now trans_id rev_id db1 = Inr db'"
    by (simp split: sum.splits)
  have a: "get_revision db1 rev_id = Some r" "get_document db1 (r_document_id r) = Some d"
    using assms(2,3) by (simp_all add: i(2) get_revision_def get_document_def)
  have s: "select_document_id db1 (d_doc_number d) recipient_org_id (d_project_id d) =
      select_document_id db (d_doc_number d) recipient_org_id (d_project_id d)"
    by (simp add: i(2) select_document_id_def)
  from transmit_revision_replicated[OF 3 a] s
    create_transmittal_keeps_documents(2)[OF assms(1)]
  show ?thesis by simp
qed

theorem round_trip_replication_witness:
  "create_transmittal ''TR-1'' ''for review'' 1 2 [1] 1 ''2024-01-04T09:00:00'' org_a_db =
     (Inr 1, tr1_db) \<and>
   get_revision org_a_db 1 = Some rev_a \<and>
   get_document org_a_db (r_document_id rev_a) = Some doc_001 \<and>
   select_document_id org_a_db (d_doc_number doc_001) 2 (d_project_id doc_001) = None \<and>
   replicated_by_key tr1_db 2 1 doc_001 rev_a \<and>
   replicated_identically tr1_db 2 1 doc_001 rev_a \<and>
   map strip_current (take (length (documents org_a_db)) (documents tr1_db)) =
     map strip_current (documents org_a_db)"
proof -
  have d: "r_document_id rev_a = 1" by (simp add: rev_a_def)
  have g: "get_document org_a_db (r_document_id rev_a) = Some doc_001"
    by (simp add: d register_rows)
  have s: "select_document_id org_a_db (d_doc_number doc_001) 2 (d_project_id doc_001) = None"
    by (simp add: select_document_id_def org_a_db_def doc_001_def)
  from round_trip_replication[OF send_tr1 register_rows(1) g] s
  show ?thesis by (simp add: send_tr1 register_rows(1) g)
qed



text \<open>
  Claim C10, as stated, fails where the sent revision belongs to a document whose project
  is not the sender's. On \<open>forward_db\<close> Org B (2) forwards its copy of \<^verbatim>\<open>DOC-001\<close>,
  which names project 1 of Org A (1), to Org C (3): the send returns, the document it has
  created for Org C names project 1 as well, and the owner of project 1 is Org A, not the
  sender.
\<close>

theorem replica_keeps_project_counterexample:
  "create_transmittal ''TR-2'' ''forward'' 2 3 [2] 2 ''2024-01-06T09:00:00'' forward_db =
     (Inr 2, forwarded_db) \<and>
   source_document forward_db 2 =
     Some (doc_001\<lparr>d_id := 2, d_org_id := 2, d_current_revision_id := Some 2,
                   d_created_at := ''2024-01-04T09:00:00''\<rparr>) \<and>
   drop (length (documents forward_db)) (documents forwarded_db) =
     [doc_001\<lparr>d_id := 3, d_org_id := 3, d_current_revision_id := Some 3,
              d_created_at := ''2024-01-06T09:00:00''\<rparr>] \<and>
   d_project_id doc_001 = 1 \<and>
   project_owner forwarded_db 1 = Some 1 \<and>
   project_owner forwarded_db 1 \<noteq> Some 2"
proof -
  have "source_document forward_db 2 =
     Some (doc_001\<lparr>d_id := 2, d_org_id := 2, d_current_revision_id := Some 2,
                   d_created_at := ''2024-01-04T09:00:00''\<rparr>)"
    by (simp add: source_document_def get_revision_def get_document_def forward_db_def
        tr1_db_def doc_001_def)
  moreover have "d_project_id doc_001 = 1" by (simp add: doc_001_def)
  moreover have "project_owner forwarded_db 1 = Some 1"
    by (simp add: project_owner_def get_project_def forwarded_db_def forward_db_def tr1_db_def)
  moreover have "drop (length (documents forward_db)) (documents forwarded_db) =
     [doc_001\<lparr>d_id := 3, d_org_id := 3, d_current_revision_id := Some 3,
              d_created_at := ''2024-01-06T09:00:00''\<rparr>]"
    by (simp add: forwarded_db_def)
  ultimately show ?thesis
    by (simp add: send_forward)
qed

text \<open>
  Claim C10, amended. A send never touches the project table and changes the documents it
  found in their current-revision pointer only. Every document it has created (the rows
  after the old ones) belongs to the recipient organization and has the number, title,
  type, status and \<^verbatim>\<open>project_id\<close> of the document that owns one of the sent revisions;
  so the new document names the very project row its source names, and the owner of that
  project after the send is the organization that owned the source's project before it:
  the sender when the source's project is the sender's, as on the register, where the
  replica of Org B names project 1 of Org A.
\<close>

theorem replica_keeps_project:
  assumes "create_transmittal transmittal_number description sender_org_id recipient_org_id
             document_revision_ids created_by now db = (Inr trans_id, db')"
  shows "projects db' = projects db \<and>
         map strip_current (take (length (documents db)) (documents db')) =
           map strip_current (documents db) \<and>
         (\<forall>nd \<in> set (drop (length (documents db)) (documents db')).
            replica_of_sent db' recipient_org_id document_revision_ids nd \<and>
            (\<exists>rev_id \<in> set document_revision_ids.
               case source_document db' rev_id of
                 None \<Rightarrow> False
               | Some d \<Rightarrow>
                   d_project_id nd = d_project_id d \<and>
                   project_owner db' (d_project_id nd) = project_owner db (d_project_id d)))"
proof -
  from assms obtain db1 where 1: "transmit_revisions get_conn transmittal_number
      recipient_org_id created_by now trans_id document_revision_ids db1 = Inr db'"
    and d: "documents db1 = documents db" and p: "projects db1 = projects db"
    by (rule create_transmittal_extends)
  note e = transmit_revisions_extends[OF 1]
  from e obtain zs where
    "map strip_current (documents db') = map strip_current (documents db) @ zs"
    by (auto simp: extends_def prefix_def d)
  then have "take (length (documents db)) (map strip_current (documents db')) =
      map strip_current (documents db)"
    by simp
  then have t: "map strip_current (take (length (documents db)) (documents db')) =
           map strip_current (documents db)"
    by (simp add: take_map)
  have pp: "projects db' = projects db" using e p by (simp add: extends_def)
  have o: "project_owner db' x = project_owner db x" for x
    by (simp add: project_owner_def get_project_def pp)
  have n: "\<forall>nd \<in> set (drop (length (documents db)) (documents db')).
            replica_of_sent db' recipient_org_id document_revision_ids nd"
    using transmit_revisions_new_documents[OF 1] by (simp add: d)
  have "replica_of_sent db' recipient_org_id document_revision_ids nd \<and>
            (\<exists>rev_id \<in> set document_revision_ids.
               case source_document db' rev_id of
                 None \<Rightarrow> False
               | Some d \<Rightarrow>
                   d_project_id nd = d_project_id d \<and>
                   project_owner db' (d_project_id nd) = project_owner db (d_project_id d))"
    if "nd \<in> set (drop (length (documents db)) (documents db'))" for nd
  proof -
    from n that have r: "replica_of_sent db' recipient_org_id document_revision_ids nd"
      by blast
    then obtain rev_id sd where x: "rev_id \<in> set document_revision_ids"
      and s: "source_document db' rev_id = Some sd" and i: "same_identity nd sd"
      by (auto simp: replica_of_sent_def split: option.splits)
    from i have q: "d_project_id nd = d_project_id sd" by (simp add: same_identity_def)
    have "case source_document db' rev_id of
                 None \<Rightarrow> False
               | Some d \<Rightarrow>
                   d_project_id nd = d_project_id d \<and>
                   project_owner db' (d_project_id nd) = project_owner db (d_project_id d)"
      by (simp add: s q o)
    with x r show ?thesis by blast
  qed
  with pp t show ?thesis by blast
qed

theorem replica_keeps_project_witness:
  "create_transmittal ''TR-1'' ''for review'' 1 2 [1] 1 ''2024-01-04T09:00:00'' org_a_db =
     (Inr 1, tr1_db) \<and>
   drop (length (documents org_a_db)) (documents tr1_db) =
     [doc_001\<lparr>d_id := 2, d_org_id := 2, d_current_revision_id := Some 2,
              d_created_at := ''2024-01-04T09:00:00''\<rparr>] \<and>
   replica_of_sent tr1_db 2 [1]
     (doc_001\<lparr>d_id := 2, d_org_id := 2, d_current_revision_id := Some 2,
              d_created_at := ''2024-01-04T09:00:00''\<rparr>) \<and>
   source_document tr1_db 1 = Some doc_001 \<and>
   project_owner tr1_db 1 = project_owner org_a_db (d_project_id doc_001) \<and>
   project_owner tr1_db 1 = Some 1"
proof -
  have d: "drop (length (documents org_a_db)) (documents tr1_db) =
     [doc_001\<lparr>d_id := 2, d_org_id := 2, d_current_revision_id := Some 2,
              d_created_at := ''2024-01-04T09:00:00''\<rparr>]"
    by (simp add: org_a_db_def tr1_db_def doc_001_def)
  have p: "project_owner tr1_db 1 = Some 1" "project_owner org_a_db (d_project_id doc_001) = Some 1"
    by (simp_all add: project_owner_def get_project_def tr1_db_def org_a_db_def doc_001_def)
  have s: "source_document tr1_db 1 = Some doc_001"
    by (simp add: source_document_def get_revision_def get_document_def tr1_db_def doc_001_def)
  from replica_keeps_project[OF send_tr1] d p s show ?thesis
    by (simp add: send_tr1)
qed

end
